theory Spec2Isabelle
  imports Main "HOL-Library.AList"
begin

section \<open>ReaderSpace: a membership and payment tracker\<close>

text \<open>
  The program is one Streamlit script, \<^verbatim>\<open>ReaderSpace_app.py\<close>. Every run of the script
  loads the whole dataset from \<^verbatim>\<open>library_users.json\<close>, executes the branch of the
  selected menu entry, and (when it changed the dataset) writes the whole dataset back.
  This theory embeds the script: the Python built-ins it calls, the dataset, the two
  storage helpers, the five menu branches and one run of the script.
\<close>

subsection \<open>Constants of the script\<close>

definition FILENAME :: string where
  "FILENAME = ''library_users.json''"

definition MONTHLY_FEE :: int where
  "MONTHLY_FEE = 500"

subsection \<open>Python built-ins the script calls\<close>

text \<open>
  \<^verbatim>\<open>str(n)\<close> for an integer: decimal digits, most significant first, a minus sign for a
  negative number. Strings are byte strings here; the texts the script builds itself
  (codes and dates) are ASCII.
\<close>

definition digit_char :: "nat \<Rightarrow> char" where
  "digit_char d = ''0123456789'' ! d"

fun str_nat :: "nat \<Rightarrow> string" where
  "str_nat n = (if n < 10 then [digit_char n] else str_nat (n div 10) @ [digit_char (n mod 10)])"

declare str_nat.simps [simp del]

definition str :: "int \<Rightarrow> string" where
  "str i = (if i < 0 then CHR ''-'' # str_nat (nat (- i)) else str_nat (nat i))"

text \<open>Reading a decimal numeral back, as \<^verbatim>\<open>int(s)\<close> does for a text of digits.\<close>

definition digit_val :: "char \<Rightarrow> nat" where
  "digit_val c = of_char c - 48"

definition decimal :: "string \<Rightarrow> nat" where
  "decimal s = foldl (\<lambda>acc c. 10 * acc + digit_val c) 0 s"

text \<open>
  \<^verbatim>\<open>datetime\<close>: only the calendar fields are read by the script. A value of the Python
  class always satisfies \<open>valid_datetime\<close> (\<^verbatim>\<open>MINYEAR = 1\<close>, \<^verbatim>\<open>MAXYEAR = 9999\<close>).
\<close>

record datetime =
  year :: nat
  month :: nat
  day :: nat

definition is_leap :: "nat \<Rightarrow> bool" where
  "is_leap y = (y mod 4 = 0 \<and> (y mod 100 \<noteq> 0 \<or> y mod 400 = 0))"

definition days_in_month :: "nat \<Rightarrow> nat \<Rightarrow> nat" where
  "days_in_month y m =
     (if m = 2 then (if is_leap y then 29 else 28)
      else if m = 4 \<or> m = 6 \<or> m = 9 \<or> m = 11 then 30 else 31)"

definition valid_datetime :: "datetime \<Rightarrow> bool" where
  "valid_datetime d =
     (1 \<le> year d \<and> year d \<le> 9999 \<and> 1 \<le> month d \<and> month d \<le> 12 \<and>
      1 \<le> day d \<and> day d \<le> days_in_month (year d) (month d))"

text \<open>
  \<^verbatim>\<open>strftime("%Y-%m-%d")\<close>: the year, then month and day filled with zeros to two
  digits. The year is filled to four digits; C libraries differ on years below 1000, so
  every statement that formats a date asks for a year of four digits.
\<close>

definition zfill :: "nat \<Rightarrow> string \<Rightarrow> string" where
  "zfill w s = replicate (w - length s) (CHR ''0'') @ s"

definition strftime :: "datetime \<Rightarrow> string" where
  "strftime d =
     zfill 4 (str_nat (year d)) @ ''-'' @ zfill 2 (str_nat (month d)) @ ''-'' @
     zfill 2 (str_nat (day d))"

text \<open>
  \<^verbatim>\<open>strptime(s, "%Y-%m-%d")\<close>. The library matches the whole text against
  \<^verbatim>\<open>(\d\d\d\d)-(1[0-2]|0[1-9]|[1-9])-(3[01]|[12]\d|0[1-9]|[1-9]| [1-9])\<close> and then
  builds the date, which fails for the year 0 and for a day the month does not have.
  Every failure is a \<^verbatim>\<open>ValueError\<close>.
\<close>

datatype error = JSONDecodeError | ValueError

definition is_digit :: "char \<Rightarrow> bool" where
  "is_digit c = (48 \<le> (of_char c :: nat) \<and> (of_char c :: nat) \<le> 57)"

fun year_field :: "string \<Rightarrow> nat option" where
  "year_field [a, b, c, d] =
     (if is_digit a \<and> is_digit b \<and> is_digit c \<and> is_digit d
      then Some (1000 * digit_val a + 100 * digit_val b + 10 * digit_val c + digit_val d)
      else None)"
| "year_field _ = None"

fun month_field :: "string \<Rightarrow> nat option" where
  "month_field [a, b] =
     (if a = CHR ''1'' \<and> is_digit b \<and> digit_val b \<le> 2 then Some (10 + digit_val b)
      else if a = CHR ''0'' \<and> is_digit b \<and> 1 \<le> digit_val b then Some (digit_val b)
      else None)"
| "month_field [a] = (if is_digit a \<and> 1 \<le> digit_val a then Some (digit_val a) else None)"
| "month_field _ = None"

fun day_field :: "string \<Rightarrow> nat option" where
  "day_field [a, b] =
     (if a = CHR ''3'' \<and> is_digit b \<and> digit_val b \<le> 1 then Some (30 + digit_val b)
      else if (a = CHR ''1'' \<or> a = CHR ''2'') \<and> is_digit b
        then Some (10 * digit_val a + digit_val b)
      else if (a = CHR ''0'' \<or> a = CHR '' '') \<and> is_digit b \<and> 1 \<le> digit_val b
        then Some (digit_val b)
      else None)"
| "day_field [a] = (if is_digit a \<and> 1 \<le> digit_val a then Some (digit_val a) else None)"
| "day_field _ = None"

definition not_dash :: "char \<Rightarrow> bool" where
  "not_dash c = (c \<noteq> CHR ''-'')"

definition strptime :: "string \<Rightarrow> error + datetime" where
  "strptime s =
     (let ys = takeWhile not_dash s;
          s1 = drop (length ys + 1) s;
          ms = takeWhile not_dash s1;
          ds = drop (length ms + 1) s1
      in if length ys < length s \<and> length ms < length s1 then
           (case (year_field ys, month_field ms, day_field ds) of
              (Some y, Some m, Some d) \<Rightarrow>
                (if 1 \<le> y \<and> d \<le> days_in_month y m
                 then Inr \<lparr>year = y, month = m, day = d\<rparr>
                 else Inl ValueError)
            | _ \<Rightarrow> Inl ValueError)
         else Inl ValueError)"

subsection \<open>The dataset\<close>

text \<open>
  A member is a Python dictionary with nine fixed keys, a payment one with two. The
  dataset is a dictionary from library code to member. Python dictionaries keep
  insertion order and the report is written in that order, so the dataset is an
  association list: \<^verbatim>\<open>len(data)\<close> is \<open>length\<close>, \<^verbatim>\<open>code in data\<close> and
  \<^verbatim>\<open>data[code]\<close> are \<open>map_of\<close>, \<^verbatim>\<open>data[code] = v\<close> is \<open>AList.update\<close>
  (in place for a key that is present, at the end for a new one).
\<close>

record payment =
  date :: string
  amount :: int

record user =
  name :: string
  father_name :: string
  address :: string
  email :: string
  contact :: string
  seatno :: string
  admission_date :: string
  last_payment :: string
  payments :: "payment list"

type_synonym dataset = "(string \<times> user) list"

text \<open>One row of the report: the eight columns that \<^verbatim>\<open>generate_report\<close> fills.\<close>

record row =
  Library_Code :: string
  Name :: string
  Fathers_Name :: string
  Address :: string
  Contact :: string
  Admission_Date :: string
  Payment_Date :: string
  Amount_Paid :: int

subsection \<open>The files\<close>

text \<open>
  A file is kept up to what its readers make of it: text that \<^verbatim>\<open>json.load\<close> rejects,
  text that \<^verbatim>\<open>json.load\<close> reads as a dataset (what \<^verbatim>\<open>json.dump\<close> of that dataset
  writes), or the spreadsheet that the report branch writes.
\<close>

datatype contents = Not_JSON | JSON dataset | Spreadsheet "row list"

type_synonym filesystem = "string \<rightharpoonup> contents"

definition json_load :: "contents \<Rightarrow> error + dataset" where
  "json_load f = (case f of JSON d \<Rightarrow> Inr d | _ \<Rightarrow> Inl JSONDecodeError)"

definition json_dump :: "dataset \<Rightarrow> contents" where
  "json_dump d = JSON d"

definition load_data :: "filesystem \<Rightarrow> error + dataset" where
  "load_data fs = (case fs FILENAME of Some f \<Rightarrow> json_load f | None \<Rightarrow> Inr [])"

definition save_data :: "dataset \<Rightarrow> filesystem \<Rightarrow> filesystem" where
  "save_data d fs = fs(FILENAME \<mapsto> json_dump d)"

subsection \<open>What a run shows and sends\<close>

text \<open>
  The texts of the messages are kept as their kind and the values formatted into them.
  \<open>Uncaught e\<close> is the exception that ends a run early; Streamlit shows it on the page.
\<close>

datatype sms_text =
    Welcome string string string int
  | Months_due_reminder string int int
  | Payment_received int string

datatype shown =
    Error_required_fields
  | Success_registered string
  | Show_json user
  | Error_invalid_code
  | Warning_owes string string int int
  | Info_up_to_date string string
  | Write_user string string
  | Write_months_due int
  | Write_payment_amount int
  | Success_payment int
  | Sms string sms_text
  | Error_sms_failed
  | Dataframe "row list"
  | Download_csv "row list"
  | Download_excel "row list"
  | Info_no_data
  | Uncaught error

text \<open>
  \<^verbatim>\<open>send_sms\<close>: nothing when the Twilio package is missing (\<open>None\<close>); otherwise the
  message is handed to the client, and a failure of the client (or of reading the
  secrets) is caught and shown.
\<close>

type_synonym twilio = "(string \<Rightarrow> sms_text \<Rightarrow> bool) option"

definition send_sms :: "twilio \<Rightarrow> string \<Rightarrow> sms_text \<Rightarrow> shown list" where
  "send_sms tw to message =
     (case tw of
        None \<Rightarrow> []
      | Some create \<Rightarrow> if create to message then [Sms to message] else [Error_sms_failed])"

subsection \<open>\<^verbatim>\<open>generate_report\<close>\<close>

fun payment_rows :: "string \<Rightarrow> user \<Rightarrow> payment list \<Rightarrow> row list \<Rightarrow> row list" where
  "payment_rows code u [] rows = rows"
| "payment_rows code u (pay # pays) rows =
     payment_rows code u pays
       (rows @ [\<lparr>Library_Code = code, Name = name u, Fathers_Name = father_name u,
                 Address = address u, Contact = contact u,
                 Admission_Date = admission_date u, Payment_Date = date pay,
                 Amount_Paid = amount pay\<rparr>])"

fun user_rows :: "dataset \<Rightarrow> row list \<Rightarrow> row list" where
  "user_rows [] rows = rows"
| "user_rows ((code, u) # items) rows = user_rows items (payment_rows code u (payments u) rows)"

definition generate_report :: "dataset \<Rightarrow> row list" where
  "generate_report d = user_rows d []"

subsection \<open>The state of a run\<close>

text \<open>
  The dictionary \<^verbatim>\<open>data\<close> of the script, the files, and what the run has shown and sent
  so far, in order.
\<close>

record app =
  data :: dataset
  files :: filesystem
  page :: "shown list"

subsection \<open>New User Registration\<close>

text \<open>The six inputs of the form, named after their labels.\<close>

record form =
  Full_Name :: string
  Father_s_Name :: string
  Address_input :: string
  Email_input :: string
  Contact_Number :: string
  Seat_Number :: string

definition new_user_registration ::
  "twilio \<Rightarrow> datetime \<Rightarrow> form \<Rightarrow> bool \<Rightarrow> app \<Rightarrow> app" where
  "new_user_registration tw now inp register st =
     (let admission = strftime now in
      if register then
        if Full_Name inp = [] \<or> Father_s_Name inp = [] \<or> Contact_Number inp = [] then
          st\<lparr>page := page st @ [Error_required_fields]\<rparr>
        else
          let library_code = ''L'' @ str (int (length (data st)) + 2025001);
              data' = AList.update library_code
                        \<lparr>name = Full_Name inp, father_name = Father_s_Name inp,
                         address = Address_input inp, email = Email_input inp,
                         contact = Contact_Number inp, seatno = Seat_Number inp,
                         admission_date = admission, last_payment = admission,
                         payments = [\<lparr>date = admission, amount = MONTHLY_FEE\<rparr>]\<rparr>
                        (data st)
          in \<lparr>data = data', files = save_data data' (files st),
              page = page st @ [Success_registered library_code] @
                     send_sms tw (Contact_Number inp)
                       (Welcome (Full_Name inp) library_code admission MONTHLY_FEE)\<rparr>
      else st)"

subsection \<open>Existing User Login\<close>

definition existing_user_login :: "string \<Rightarrow> bool \<Rightarrow> app \<Rightarrow> app" where
  "existing_user_login library_code login st =
     (if login then
        (case map_of (data st) library_code of
           Some u \<Rightarrow> st\<lparr>page := page st @ [Show_json u]\<rparr>
         | None \<Rightarrow> st\<lparr>page := page st @ [Error_invalid_code]\<rparr>)
      else st)"

subsection \<open>Check Pending Payments\<close>

definition months_due :: "datetime \<Rightarrow> datetime \<Rightarrow> int" where
  "months_due today paid =
     (int (year today) - int (year paid)) * 12 + (int (month today) - int (month paid))"

text \<open>The body of the loop for one member: what it shows and sends, or the exception.\<close>

definition check_user :: "twilio \<Rightarrow> datetime \<Rightarrow> string \<Rightarrow> user \<Rightarrow> error + shown list" where
  "check_user tw today code u =
     (case strptime (last_payment u) of
        Inl e \<Rightarrow> Inl e
      | Inr paid \<Rightarrow>
          (let months = months_due today paid in
           if months > 0 then
             let due_amount = months * MONTHLY_FEE
             in Inr (Warning_owes (name u) code due_amount months #
                     send_sms tw (contact u) (Months_due_reminder (name u) months due_amount))
           else Inr [Info_up_to_date (name u) code]))"

fun check_users :: "twilio \<Rightarrow> datetime \<Rightarrow> dataset \<Rightarrow> shown list \<Rightarrow> shown list" where
  "check_users tw today [] out = out"
| "check_users tw today ((code, u) # items) out =
     (case check_user tw today code u of
        Inl e \<Rightarrow> out @ [Uncaught e]
      | Inr msgs \<Rightarrow> check_users tw today items (out @ msgs))"

definition check_pending_payments :: "twilio \<Rightarrow> datetime \<Rightarrow> app \<Rightarrow> app" where
  "check_pending_payments tw today st = st\<lparr>page := check_users tw today (data st) (page st)\<rparr>"

subsection \<open>Record Payment\<close>

text \<open>
  \<^verbatim>\<open>st.number_input(..., min_value=1, value=1)\<close>: the widget holds \<^verbatim>\<open>value\<close> until
  the user commits another number, and does not accept a number below \<^verbatim>\<open>min_value\<close>.
  Only this lower bound of the widget is modelled.
\<close>

definition number_input :: "int \<Rightarrow> int \<Rightarrow> int \<Rightarrow> int" where
  "number_input min_value value entered = (if entered < min_value then value else entered)"

definition record_payment ::
  "twilio \<Rightarrow> datetime \<Rightarrow> string \<Rightarrow> bool \<Rightarrow> int \<Rightarrow> bool \<Rightarrow> app \<Rightarrow> app" where
  "record_payment tw now library_code fetch_user entered confirm_payment st =
     (if fetch_user then
        (case map_of (data st) library_code of
           Some u \<Rightarrow>
             (case strptime (last_payment u) of
                Inl e \<Rightarrow> st\<lparr>page := page st @ [Write_user (name u) library_code, Uncaught e]\<rparr>
              | Inr paid \<Rightarrow>
                  (let months = months_due now paid;
                       months_paid = number_input 1 1 entered;
                       total_amount = months_paid * MONTHLY_FEE;
                       out = page st @ [Write_user (name u) library_code, Write_months_due months,
                                        Write_payment_amount total_amount]
                   in if confirm_payment then
                        let new_payment_date = strftime now;
                            u' = u\<lparr>last_payment := new_payment_date,
                                   payments := payments u @
                                     [\<lparr>date = new_payment_date, amount = total_amount\<rparr>]\<rparr>;
                            data' = AList.update library_code u' (data st)
                        in \<lparr>data = data', files = save_data data' (files st),
                            page = out @ [Success_payment total_amount] @
                                   send_sms tw (contact u')
                                     (Payment_received total_amount (name u'))\<rparr>
                      else st\<lparr>page := out\<rparr>))
         | None \<Rightarrow> st\<lparr>page := page st @ [Error_invalid_code]\<rparr>)
      else st)"

subsection \<open>Download Reports\<close>

definition download_reports :: "app \<Rightarrow> app" where
  "download_reports st =
     (let df = generate_report (data st) in
      if df \<noteq> [] then
        st\<lparr>files := (files st)(''library_report.xlsx'' \<mapsto> Spreadsheet df),
           page := page st @ [Dataframe df, Download_csv df, Download_excel df]\<rparr>
      else st\<lparr>page := page st @ [Info_no_data]\<rparr>)"

subsection \<open>One run of the script, and a session of runs\<close>

text \<open>
  The menu entry selected in the sidebar, with what the widgets of its branch return in
  the run: the texts entered, the number entered, and for each \<^verbatim>\<open>st.button\<close> call
  whether it returns \<open>True\<close>. The clock is read once per run.
\<close>

datatype choice =
    New_User_Registration form bool
  | Existing_User_Login string bool
  | Check_Pending_Payments
  | Record_Payment string bool int bool
  | Download_Reports

fun branch :: "twilio \<Rightarrow> datetime \<Rightarrow> choice \<Rightarrow> app \<Rightarrow> app" where
  "branch tw now (New_User_Registration inp register) st =
     new_user_registration tw now inp register st"
| "branch tw now (Existing_User_Login library_code login) st =
     existing_user_login library_code login st"
| "branch tw now Check_Pending_Payments st = check_pending_payments tw now st"
| "branch tw now (Record_Payment library_code fetch_user entered confirm_payment) st =
     record_payment tw now library_code fetch_user entered confirm_payment st"
| "branch tw now Download_Reports st = download_reports st"

text \<open>
  A run starts with \<^verbatim>\<open>data = load_data()\<close>. It leaves the files and the page; the
  dictionary does not outlive it.
\<close>

definition script :: "twilio \<Rightarrow> datetime \<Rightarrow> choice \<Rightarrow> filesystem \<Rightarrow> filesystem \<times> shown list" where
  "script tw now c fs =
     (case load_data fs of
        Inl e \<Rightarrow> (fs, [Uncaught e])
      | Inr d \<Rightarrow>
          (let st = branch tw now c \<lparr>data = d, files = fs, page = []\<rparr>
           in (files st, page st)))"

fun session :: "twilio \<Rightarrow> (datetime \<times> choice) list \<Rightarrow> filesystem \<Rightarrow> filesystem \<times> shown list" where
  "session tw [] fs = (fs, [])"
| "session tw ((now, c) # runs) fs =
     (let (fs1, out1) = script tw now c fs;
          (fs2, out2) = session tw runs fs1
      in (fs2, out1 @ out2))"

text \<open>The library codes that registrations have announced, in order.\<close>

fun registered_codes :: "shown list \<Rightarrow> string list" where
  "registered_codes [] = []"
| "registered_codes (Success_registered code # out) = code # registered_codes out"
| "registered_codes (_ # out) = registered_codes out"

subsection \<open>Names used in the statements\<close>

text \<open>The record of lines 86 to 96 and the code of line 85, for the statements below.\<close>

definition new_user :: "datetime \<Rightarrow> form \<Rightarrow> user" where
  "new_user now inp =
     \<lparr>name = Full_Name inp, father_name = Father_s_Name inp,
      address = Address_input inp, email = Email_input inp,
      contact = Contact_Number inp, seatno = Seat_Number inp,
      admission_date = strftime now, last_payment = strftime now,
      payments = [\<lparr>date = strftime now, amount = MONTHLY_FEE\<rparr>]\<rparr>"

text \<open>The row of one member and one payment, and the rows of a dataset.\<close>

definition row_of :: "string \<Rightarrow> user \<Rightarrow> payment \<Rightarrow> row" where
  "row_of code u pay =
     \<lparr>Library_Code = code, Name = name u, Fathers_Name = father_name u, Address = address u,
      Contact = contact u, Admission_Date = admission_date u, Payment_Date = date pay,
      Amount_Paid = amount pay\<rparr>"

definition rows_of :: "dataset \<Rightarrow> row list" where
  "rows_of d = concat (map (\<lambda>(code, u). map (row_of code u) (payments u)) d)"


text \<open>The member after lines 148 and 149 have recorded a payment of \<open>total_amount\<close>.\<close>

definition paid_user :: "datetime \<Rightarrow> int \<Rightarrow> user \<Rightarrow> user" where
  "paid_user now total_amount u =
     u\<lparr>last_payment := strftime now,
       payments := payments u @ [\<lparr>date = strftime now, amount = total_amount\<rparr>]\<rparr>"

definition library_code_of :: "nat \<Rightarrow> string" where
  "library_code_of n = ''L'' @ str (int n + 2025001)"

text \<open>
  A dataset that registrations alone have filled: its keys are the codes of
  \<open>0, 1, \<dots>\<close> in order.
\<close>

definition sequential :: "dataset \<Rightarrow> bool" where
  "sequential d = (map fst d = map library_code_of [0..<length d])"

text \<open>
  What a branch leaves when it started from the sequential dataset \<open>d\<close>: the file
  holds a sequential dataset again, no smaller, and the codes announced are those of the
  members added.
\<close>

definition kept :: "dataset \<Rightarrow> app \<Rightarrow> bool" where
  "kept d st' = (\<exists>d'. load_data (files st') = Inr d' \<and> sequential d' \<and>
       length d \<le> length d' \<and>
       registered_codes (page st') = map library_code_of [length d..<length d'])"

subsection \<open>Example members\<close>

definition asha_form :: form where
  "asha_form = \<lparr>Full_Name = ''Asha'', Father_s_Name = ''Ram'', Address_input = ''12 Indrapuri'',
                 Email_input = [], Contact_Number = ''+911234567890'', Seat_Number = ''7''\<rparr>"

definition asha :: user where
  "asha = \<lparr>name = ''Asha'', father_name = ''Ram'', address = ''12 Indrapuri'', email = [],
           contact = ''+911234567890'', seatno = ''7'', admission_date = ''2024-01-31'',
           last_payment = ''2024-01-31'',
           payments = [\<lparr>date = ''2024-01-31'', amount = 500\<rparr>]\<rparr>"

definition ravi :: user where
  "ravi = \<lparr>name = ''Ravi'', father_name = ''Mohan'', address = [], email = [],
           contact = ''+919876543210'', seatno = ''8'', admission_date = ''2024-02-10'',
           last_payment = ''2024-02-10'',
           payments = [\<lparr>date = ''2024-02-10'', amount = 500\<rparr>]\<rparr>"

definition two_members :: app where
  "two_members = \<lparr>data = [(''L2025001'', asha), (''L2025002'', ravi)],
                   files = [FILENAME \<mapsto> JSON [(''L2025001'', asha), (''L2025002'', ravi)]],
                   page = []\<rparr>"

section \<open>Properties\<close>

subsection \<open>Decimal digits\<close>

lemma digit_cases: "d < 10 \<Longrightarrow> d \<in> {0, 1, 2, 3, 4, 5, 6, 7, 8, 9::nat}"
  by auto

lemma digit_val_digit_char: "d < 10 \<Longrightarrow> digit_val (digit_char d) = d"
  by (drule digit_cases) (auto simp: digit_val_def digit_char_def)

lemma is_digit_digit_char: "d < 10 \<Longrightarrow> is_digit (digit_char d)"
  by (drule digit_cases) (auto simp: is_digit_def digit_char_def)

lemma not_dash_digit_char: "d < 10 \<Longrightarrow> not_dash (digit_char d)"
  by (drule digit_cases) (auto simp: not_dash_def digit_char_def)

lemma decimal_snoc: "decimal (s @ [c]) = 10 * decimal s + digit_val c"
  by (simp add: decimal_def)

lemma decimal_str_nat: "decimal (str_nat n) = n"
proof (induction n rule: str_nat.induct)
  case (1 n)
  show ?case
  proof (cases "n < 10")
    case True
    then show ?thesis
      by (simp add: str_nat.simps [of n] decimal_def digit_val_digit_char)
  next
    case False
    then have "decimal (str_nat (n div 10)) = n div 10" using 1 by simp
    with False show ?thesis
      by (simp add: str_nat.simps [of n] decimal_snoc digit_val_digit_char)
  qed
qed

lemma str_nat_inj: "str_nat a = str_nat b \<Longrightarrow> a = b"
  by (metis decimal_str_nat)

lemma str_nonneg: "0 \<le> i \<Longrightarrow> str i = str_nat (nat i)"
  by (simp add: str_def)

lemma str_nat_4:
  assumes "1000 \<le> y" "y \<le> 9999"
  shows "str_nat y = [digit_char (y div 1000), digit_char (y div 100 mod 10),
                      digit_char (y div 10 mod 10), digit_char (y mod 10)]"
proof -
  have n1: "\<not> y < 10" and n2: "\<not> y div 10 < 10" and n3: "\<not> y div 100 < 10"
    and n4: "y div 1000 < 10"
    using assms by auto
  have e2: "y div 10 div 10 = y div 100" and e3: "y div 100 div 10 = y div 1000"
    by (simp_all add: div_mult2_eq [symmetric])
  have a: "str_nat y = str_nat (y div 10) @ [digit_char (y mod 10)]"
    using n1 by (simp add: str_nat.simps [of y])
  have b: "str_nat (y div 10) = str_nat (y div 100) @ [digit_char (y div 10 mod 10)]"
    using n2 e2 by (simp add: str_nat.simps [of "y div 10"])
  have c: "str_nat (y div 100) = str_nat (y div 1000) @ [digit_char (y div 100 mod 10)]"
    using n3 e3 by (simp add: str_nat.simps [of "y div 100"])
  have d: "str_nat (y div 1000) = [digit_char (y div 1000)]"
    using n4 by (simp add: str_nat.simps [of "y div 1000"])
  show ?thesis by (simp add: a b c d)
qed

lemma dec4:
  "1000 * (y div 1000) + 100 * (y div 100 mod 10) + 10 * (y div 10 mod 10) + y mod 10 = (y::nat)"
proof -
  have a: "y = 10 * (y div 10) + y mod 10" by simp
  have b: "y div 10 = 10 * (y div 100) + y div 10 mod 10"
    using div_mult_mod_eq [of "y div 10" 10] by (simp add: div_mult2_eq [symmetric] mult.commute)
  have c: "y div 100 = 10 * (y div 1000) + y div 100 mod 10"
    using div_mult_mod_eq [of "y div 100" 10] by (simp add: div_mult2_eq [symmetric] mult.commute)
  show ?thesis using a b c by linarith
qed

subsection \<open>Formatting a date and parsing it back\<close>

lemma year_text:
  assumes "1000 \<le> y" "y \<le> 9999"
  shows "zfill 4 (str_nat y) = [digit_char (y div 1000), digit_char (y div 100 mod 10),
                      digit_char (y div 10 mod 10), digit_char (y mod 10)]"
  using assms by (simp add: str_nat_4 zfill_def)

lemma year_roundtrip:
  assumes "1000 \<le> y" "y \<le> 9999"
  shows "year_field (zfill 4 (str_nat y)) = Some y"
proof -
  have "y div 1000 < 10" using assms by simp
  then have "year_field (zfill 4 (str_nat y)) =
    Some (1000 * (y div 1000) + 100 * (y div 100 mod 10) + 10 * (y div 10 mod 10) + y mod 10)"
    using assms by (simp add: year_text is_digit_digit_char digit_val_digit_char)
  then show ?thesis by (simp only: dec4)
qed

lemma year_not_dash:
  assumes "1000 \<le> y" "y \<le> 9999"
  shows "\<forall>c \<in> set (zfill 4 (str_nat y)). not_dash c"
proof -
  have "y div 1000 < 10" using assms by simp
  then show ?thesis using assms by (simp add: year_text not_dash_digit_char)
qed

lemma two_digit_text:
  assumes "n < 100"
  shows "zfill 2 (str_nat n) = [digit_char (n div 10), digit_char (n mod 10)]"
proof (cases "n < 10")
  case True
  then show ?thesis by (simp add: str_nat.simps [of n] zfill_def digit_char_def)
next
  case False
  then have "n div 10 < 10" using assms by simp
  then have "str_nat (n div 10) = [digit_char (n div 10)]"
    by (simp add: str_nat.simps [of "n div 10"])
  with False show ?thesis by (simp add: str_nat.simps [of n] zfill_def)
qed

lemma two_digit_not_dash:
  assumes "n < 100"
  shows "\<forall>c \<in> set (zfill 2 (str_nat n)). not_dash c"
proof -
  have "n div 10 < 10" using assms by simp
  then show ?thesis using assms by (simp add: two_digit_text not_dash_digit_char)
qed

lemma month_roundtrip:
  assumes "1 \<le> m" "m \<le> 12"
  shows "month_field (zfill 2 (str_nat m)) = Some m"
proof -
  have "m \<in> {1, 2, 3, 4, 5, 6, 7, 8, 9, 10, 11, 12}" using assms by simp arith
  then show ?thesis using assms
    by (auto simp: two_digit_text digit_char_def is_digit_def digit_val_def)
qed

lemma day_roundtrip:
  assumes "1 \<le> d" "d \<le> 31"
  shows "day_field (zfill 2 (str_nat d)) = Some d"
proof -
  define a b where "a = d div 10" and "b = d mod 10"
  have d: "10 * a + b = d" and b: "b < 10" and a: "a \<in> {0, 1, 2, 3}"
    using assms by (auto simp: a_def b_def)
  have t: "zfill 2 (str_nat d) = [digit_char a, digit_char b]"
    using assms by (simp add: two_digit_text a_def b_def)
  have c: "digit_char 0 = CHR ''0''" "digit_char 1 = CHR ''1''" "digit_char 2 = CHR ''2''"
    "digit_char 3 = CHR ''3''"
    by (simp_all add: digit_char_def)
  have v: "digit_val CHR ''1'' = 1" "digit_val CHR ''2'' = 2"
    by (simp_all add: digit_val_def)
  from a consider "a = 0" | "a = 1" | "a = 2" | "a = 3" by auto
  then have "day_field [digit_char a, digit_char b] = Some (10 * a + b)"
  proof cases
    case 1
    then show ?thesis using b d assms c
      by (simp add: is_digit_digit_char digit_val_digit_char v)
  next
    case 2
    then show ?thesis using b d assms c
      by (simp add: is_digit_digit_char digit_val_digit_char v)
  next
    case 3
    then show ?thesis using b d assms c
      by (simp add: is_digit_digit_char digit_val_digit_char v)
  next
    case 4
    then show ?thesis using b d assms c
      by (simp add: is_digit_digit_char digit_val_digit_char v)
  qed
  then show ?thesis by (simp only: t d)
qed

lemma strptime_fields:
  assumes "\<forall>c \<in> set ys. not_dash c" "\<forall>c \<in> set ms. not_dash c"
  shows "strptime (ys @ CHR ''-'' # ms @ CHR ''-'' # ds) =
     (case (year_field ys, month_field ms, day_field ds) of
        (Some y, Some m, Some d) \<Rightarrow>
          (if 1 \<le> y \<and> d \<le> days_in_month y m
           then Inr \<lparr>year = y, month = m, day = d\<rparr>
           else Inl ValueError)
      | _ \<Rightarrow> Inl ValueError)"
proof -
  have a: "takeWhile not_dash (ys @ CHR ''-'' # ms @ CHR ''-'' # ds) = ys"
    using assms(1) by (simp add: takeWhile_append2 not_dash_def)
  have b: "takeWhile not_dash (ms @ CHR ''-'' # ds) = ms"
    using assms(2) by (simp add: takeWhile_append2 not_dash_def)
  show ?thesis
    by (simp add: strptime_def a b Let_def)
qed

lemma days_in_month_le: "days_in_month y m \<le> 31"
  by (simp add: days_in_month_def)

lemma strptime_strftime:
  assumes "valid_datetime d" "1000 \<le> year d"
  shows "strptime (strftime d) = Inr d"
proof -
  have y: "year d \<le> 9999" and m: "1 \<le> month d" "month d \<le> 12"
    and dd: "1 \<le> day d" "day d \<le> days_in_month (year d) (month d)"
    using assms(1) by (simp_all add: valid_datetime_def)
  have d31: "day d \<le> 31" using dd(2) days_in_month_le [of "year d" "month d"] by linarith
  have s: "strftime d = zfill 4 (str_nat (year d)) @ CHR ''-'' # zfill 2 (str_nat (month d)) @
             CHR ''-'' # zfill 2 (str_nat (day d))"
    by (simp add: strftime_def)
  have yn: "\<forall>c \<in> set (zfill 4 (str_nat (year d))). not_dash c"
    using assms(2) y by (rule year_not_dash)
  have mn: "\<forall>c \<in> set (zfill 2 (str_nat (month d))). not_dash c"
    using m by (intro two_digit_not_dash) simp
  have "strptime (strftime d) = Inr \<lparr>year = year d, month = month d, day = day d\<rparr>"
    unfolding s strptime_fields [OF yn mn]
    using assms(2) dd
    by (simp add: year_roundtrip [OF assms(2) y] month_roundtrip [OF m] day_roundtrip [OF dd(1) d31])
  then show ?thesis by simp
qed






subsection \<open>Months due\<close>

lemma check_user_parsed:
  assumes "strptime (last_payment u) = Inr paid"
  shows "check_user tw today code u =
     (if 0 < months_due today paid
      then Inr (Warning_owes (name u) code (months_due today paid * MONTHLY_FEE) (months_due today paid) #
                send_sms tw (contact u)
                  (Months_due_reminder (name u) (months_due today paid) (months_due today paid * MONTHLY_FEE)))
      else Inr [Info_up_to_date (name u) code])"
  using assms by (simp add: check_user_def Let_def)

lemma record_payment_fetched:
  assumes "map_of (data st) code = Some u" "strptime (last_payment u) = Inr paid"
  shows "record_payment tw now code True entered False st =
     st\<lparr>page := page st @ [Write_user (name u) code, Write_months_due (months_due now paid),
                             Write_payment_amount (number_input 1 1 entered * MONTHLY_FEE)]\<rparr>"
  using assms by (simp add: record_payment_def Let_def)

lemma strptime_2024_01_31: "strptime ''2024-01-31'' = Inr \<lparr>year = 2024, month = 1, day = 31\<rparr>"
  by (simp add: strptime_def not_dash_def is_digit_def digit_val_def days_in_month_def is_leap_def)

lemma strptime_2024_01_01: "strptime ''2024-01-01'' = Inr \<lparr>year = 2024, month = 1, day = 1\<rparr>"
  by (simp add: strptime_def not_dash_def is_digit_def digit_val_def days_in_month_def is_leap_def)

text \<open>
  C2. The months due of a member as of a date are
  \<open>(as_of.year - last_payment.year) * 12 + (as_of.month - last_payment.month)\<close>, in the
  Record Payment branch (which writes them) and in the Check Pending Payments branch
  (which warns when they are positive). They depend on the years and months of the two
  dates only, never on the days: paid on 2024-01-31 and asked on 2024-02-01 is one month
  due, paid on 2024-01-01 and asked on 2024-01-31 is none.
\<close>

theorem months_due_calendar:
  assumes "map_of (data st) code = Some u" and "strptime (last_payment u) = Inr paid"
  shows "months_due today paid =
           (int (year today) - int (year paid)) * 12 + (int (month today) - int (month paid))
    \<and> page (record_payment tw today code True entered False st) =
        page st @ [Write_user (name u) code, Write_months_due (months_due today paid),
                   Write_payment_amount (number_input 1 1 entered * MONTHLY_FEE)]
    \<and> check_user tw today code u =
        (if 0 < months_due today paid
         then Inr (Warning_owes (name u) code (months_due today paid * MONTHLY_FEE)
                     (months_due today paid) #
                   send_sms tw (contact u)
                     (Months_due_reminder (name u) (months_due today paid)
                        (months_due today paid * MONTHLY_FEE)))
         else Inr [Info_up_to_date (name u) code])
    \<and> (\<forall>t p. year t = year today \<and> month t = month today \<and>
               year p = year paid \<and> month p = month paid \<longrightarrow>
               months_due t p = months_due today paid)
    \<and> (\<exists>p. strptime ''2024-01-31'' = Inr p \<and>
             months_due \<lparr>year = 2024, month = 2, day = 1\<rparr> p = 1)
    \<and> (\<exists>p. strptime ''2024-01-01'' = Inr p \<and>
             months_due \<lparr>year = 2024, month = 1, day = 31\<rparr> p = 0)"
proof (intro conjI)
  show "months_due today paid =
           (int (year today) - int (year paid)) * 12 + (int (month today) - int (month paid))"
    by (simp add: months_due_def)
  show "page (record_payment tw today code True entered False st) =
        page st @ [Write_user (name u) code, Write_months_due (months_due today paid),
                   Write_payment_amount (number_input 1 1 entered * MONTHLY_FEE)]"
    by (simp add: record_payment_fetched [OF assms])
  show "check_user tw today code u =
        (if 0 < months_due today paid
         then Inr (Warning_owes (name u) code (months_due today paid * MONTHLY_FEE)
                     (months_due today paid) #
                   send_sms tw (contact u)
                     (Months_due_reminder (name u) (months_due today paid)
                        (months_due today paid * MONTHLY_FEE)))
         else Inr [Info_up_to_date (name u) code])"
    by (rule check_user_parsed [OF assms(2)])
  show "\<forall>t p. year t = year today \<and> month t = month today \<and>
               year p = year paid \<and> month p = month paid \<longrightarrow>
               months_due t p = months_due today paid"
    by (simp add: months_due_def)
  show "\<exists>p. strptime ''2024-01-31'' = Inr p \<and>
             months_due \<lparr>year = 2024, month = 2, day = 1\<rparr> p = 1"
    by (simp add: strptime_2024_01_31 months_due_def)
  show "\<exists>p. strptime ''2024-01-01'' = Inr p \<and>
             months_due \<lparr>year = 2024, month = 1, day = 31\<rparr> p = 0"
    by (simp add: strptime_2024_01_01 months_due_def)
qed

theorem months_due_calendar_witness:
  "map_of [(''L2025001'', asha)] ''L2025001'' = Some asha
   \<and> strptime (last_payment asha) = Inr \<lparr>year = 2024, month = 1, day = 31\<rparr>
   \<and> months_due \<lparr>year = 2024, month = 2, day = 1\<rparr> \<lparr>year = 2024, month = 1, day = 31\<rparr> = 1
   \<and> page (record_payment None \<lparr>year = 2024, month = 2, day = 1\<rparr> ''L2025001'' True 1 False
              \<lparr>data = [(''L2025001'', asha)], files = Map.empty, page = []\<rparr>) =
       [Write_user ''Asha'' ''L2025001'', Write_months_due 1, Write_payment_amount 500]
   \<and> check_user None \<lparr>year = 2024, month = 2, day = 1\<rparr> ''L2025001'' asha =
       Inr [Warning_owes ''Asha'' ''L2025001'' 500 1]"
proof -
  have m: "map_of (data \<lparr>data = [(''L2025001'', asha)], files = Map.empty, page = []\<rparr>)
             ''L2025001'' = Some asha"
    by simp
  have p: "strptime (last_payment asha) = Inr \<lparr>year = 2024, month = 1, day = 31\<rparr>"
    by (simp add: asha_def strptime_2024_01_31)
  show ?thesis
    using months_due_calendar [OF m p, of "\<lparr>year = 2024, month = 2, day = 1\<rparr>" None 1] p
    by (simp add: asha_def send_sms_def number_input_def MONTHLY_FEE_def)
qed

subsection \<open>Registration\<close>

lemma registration_accepted:
  assumes "Full_Name inp \<noteq> []" "Father_s_Name inp \<noteq> []" "Contact_Number inp \<noteq> []"
  shows "new_user_registration tw now inp True st =
     \<lparr>data = AList.update (''L'' @ str (int (length (data st)) + 2025001)) (new_user now inp) (data st),
      files = save_data
                (AList.update (''L'' @ str (int (length (data st)) + 2025001)) (new_user now inp) (data st))
                (files st),
      page = page st @ Success_registered (''L'' @ str (int (length (data st)) + 2025001)) #
             send_sms tw (Contact_Number inp)
               (Welcome (Full_Name inp) (''L'' @ str (int (length (data st)) + 2025001))
                  (strftime now) MONTHLY_FEE)\<rparr>"
  using assms by (simp add: new_user_registration_def Let_def new_user_def)

lemma registration_rejected:
  assumes "Full_Name inp = [] \<or> Father_s_Name inp = [] \<or> Contact_Number inp = []"
  shows "new_user_registration tw now inp True st = st\<lparr>page := page st @ [Error_required_fields]\<rparr>"
  using assms by (auto simp add: new_user_registration_def Let_def)

lemma load_data_save_data: "load_data (save_data d fs) = Inr d"
  by (simp add: load_data_def save_data_def json_load_def json_dump_def)

text \<open>
  C3. After a successful registration the new member has exactly one payment, of
  \<open>MONTHLY_FEE = 500\<close>, dated the admission date, and the last payment date is the
  admission date too. The record is in the dictionary and in the file.
\<close>

theorem registration_first_payment:
  assumes "Full_Name inp \<noteq> []" and "Father_s_Name inp \<noteq> []" and "Contact_Number inp \<noteq> []"
  shows "\<exists>u. map_of (data (new_user_registration tw now inp True st))
               (''L'' @ str (int (length (data st)) + 2025001)) = Some u
     \<and> payments u = [\<lparr>date = admission_date u, amount = MONTHLY_FEE\<rparr>]
     \<and> length (payments u) = 1
     \<and> MONTHLY_FEE = 500
     \<and> last_payment u = admission_date u
     \<and> admission_date u = strftime now
     \<and> load_data (files (new_user_registration tw now inp True st)) =
         Inr (data (new_user_registration tw now inp True st))"
  by (simp add: registration_accepted [OF assms] AList.update_conv' new_user_def
      load_data_save_data MONTHLY_FEE_def)

theorem registration_first_payment_witness:
  "map_of (data (new_user_registration None \<lparr>year = 2025, month = 1, day = 10\<rparr> asha_form True
                   \<lparr>data = [], files = Map.empty, page = []\<rparr>)) ''L2025001'' =
     Some \<lparr>name = ''Asha'', father_name = ''Ram'', address = ''12 Indrapuri'', email = [],
           contact = ''+911234567890'', seatno = ''7'', admission_date = ''2025-01-10'',
           last_payment = ''2025-01-10'',
           payments = [\<lparr>date = ''2025-01-10'', amount = 500\<rparr>]\<rparr>"
proof -
  have a: "Full_Name asha_form \<noteq> []" "Father_s_Name asha_form \<noteq> []"
    "Contact_Number asha_form \<noteq> []"
    by (simp_all add: asha_form_def)
  have s: "strftime \<lparr>year = 2025, month = 1, day = 10\<rparr> = ''2025-01-10''"
    by (simp add: strftime_def zfill_def str_nat.simps digit_char_def)
  have c: "str 2025001 = ''2025001''"
    by (simp add: str_def str_nat.simps digit_char_def)
  have r: "data (new_user_registration None \<lparr>year = 2025, month = 1, day = 10\<rparr> asha_form True
                   \<lparr>data = [], files = Map.empty, page = []\<rparr>) =
           [(''L2025001'', new_user \<lparr>year = 2025, month = 1, day = 10\<rparr> asha_form)]"
    by (simp add: registration_accepted [OF a] c)
  obtain u where u: "map_of (data (new_user_registration None \<lparr>year = 2025, month = 1, day = 10\<rparr>
                        asha_form True \<lparr>data = [], files = Map.empty, page = []\<rparr>))
                     (''L'' @ str (int (length (data \<lparr>data = [], files = Map.empty, page = []\<rparr>)) + 2025001)) = Some u"
    and "payments u = [\<lparr>date = admission_date u, amount = MONTHLY_FEE\<rparr>]"
    using registration_first_payment [OF a, of None "\<lparr>year = 2025, month = 1, day = 10\<rparr>"
        "\<lparr>data = [], files = Map.empty, page = []\<rparr>"]
    by blast
  then show ?thesis
    unfolding r by (simp add: new_user_def s c asha_form_def MONTHLY_FEE_def del: One_nat_def)
qed

subsection \<open>Library codes over a session\<close>

lemma registered_codes_append:
  "registered_codes (xs @ ys) = registered_codes xs @ registered_codes ys"
  by (induction xs rule: registered_codes.induct) simp_all

lemma registered_codes_send_sms: "registered_codes (send_sms tw to message) = []"
  by (simp add: send_sms_def split: option.split)

lemma registered_codes_check_user:
  "check_user tw today code u = Inr msgs \<Longrightarrow> registered_codes msgs = []"
  by (auto simp: check_user_def Let_def registered_codes_send_sms split: sum.splits if_splits)

lemma registered_codes_check_users:
  "registered_codes (check_users tw today d out) = registered_codes out"
proof (induction d arbitrary: out)
  case Nil
  then show ?case by simp
next
  case (Cons item d)
  obtain code u where item: "item = (code, u)" by (cases item)
  show ?case
  proof (cases "check_user tw today code u")
    case (Inl e)
    then show ?thesis by (simp add: item registered_codes_append)
  next
    case (Inr msgs)
    then show ?thesis
      using Cons.IH [of "out @ msgs"] registered_codes_check_user [OF Inr]
      by (simp add: item registered_codes_append)
  qed
qed

lemma library_code_of_inj: "library_code_of a = library_code_of b \<Longrightarrow> a = b"
proof -
  assume "library_code_of a = library_code_of b"
  then have "str_nat (nat (int a + 2025001)) = str_nat (nat (int b + 2025001))"
    by (simp add: library_code_of_def str_nonneg)
  then have "nat (int a + 2025001) = nat (int b + 2025001)" by (rule str_nat_inj)
  then show "a = b" by linarith
qed

lemma distinct_library_codes: "distinct (map library_code_of [a..<b])"
  by (simp add: distinct_map inj_on_def) (blast dest: library_code_of_inj)

lemma sequential_fresh:
  assumes "sequential d"
  shows "library_code_of (length d) \<notin> set (map fst d)"
proof
  assume "library_code_of (length d) \<in> set (map fst d)"
  then have "library_code_of (length d) \<in> set (map library_code_of [0..<length d])"
    using assms by (simp only: sequential_def)
  then have "library_code_of (length d) \<in> library_code_of ` {0..<length d}"
    by simp
  then obtain i where "i < length d" "library_code_of (length d) = library_code_of i" by auto
  then show False using library_code_of_inj by blast
qed

lemma sequential_register:
  assumes "sequential d"
  shows "sequential (AList.update (library_code_of (length d)) u d)"
    and "length (AList.update (library_code_of (length d)) u d) = Suc (length d)"
proof -
  have k: "map fst (AList.update (library_code_of (length d)) u d) =
           map fst d @ [library_code_of (length d)]"
    using sequential_fresh [OF assms] by (simp add: AList.update_keys)
  then have "length (map fst (AList.update (library_code_of (length d)) u d)) = Suc (length d)"
    by simp
  then show l: "length (AList.update (library_code_of (length d)) u d) = Suc (length d)"
    by simp
  show "sequential (AList.update (library_code_of (length d)) u d)"
    using assms unfolding sequential_def k l by simp
qed

lemma sequential_pay:
  assumes "sequential d" "map_of d k = Some u"
  shows "sequential (AList.update k u' d)"
    and "length (AList.update k u' d) = length d"
proof -
  have "k \<in> set (map fst d)" using assms(2) by (auto dest: map_of_SomeD intro: rev_image_eqI)
  then have k: "map fst (AList.update k u' d) = map fst d"
    by (simp add: AList.update_keys)
  then have "length (map fst (AList.update k u' d)) = length d" by simp
  then show l: "length (AList.update k u' d) = length d" by simp
  show "sequential (AList.update k u' d)"
    using assms(1) unfolding sequential_def k l by simp
qed

lemma kept_same:
  assumes "load_data (files st') = Inr d" "sequential d" "registered_codes (page st') = []"
  shows "kept d st'"
  unfolding kept_def using assms by (intro exI [of _ d]) simp


lemma load_data_report:
  "load_data (fs(''library_report.xlsx'' \<mapsto> x)) = load_data fs"
  by (simp add: load_data_def FILENAME_def)

lemma kept_registration:
  assumes "load_data (files st) = Inr (data st)" "sequential (data st)" "page st = []"
  shows "kept (data st) (new_user_registration tw now inp register st)"
proof (cases "register \<and> Full_Name inp \<noteq> [] \<and> Father_s_Name inp \<noteq> [] \<and> Contact_Number inp \<noteq> []")
  case True
  have c: "''L'' @ str (int (length (data st)) + 2025001) = library_code_of (length (data st))"
    by (simp add: library_code_of_def)
  from True have r: "new_user_registration tw now inp register st =
     \<lparr>data = AList.update (library_code_of (length (data st))) (new_user now inp) (data st),
      files = save_data
                (AList.update (library_code_of (length (data st))) (new_user now inp) (data st))
                (files st),
      page = page st @ Success_registered (library_code_of (length (data st))) #
             send_sms tw (Contact_Number inp)
               (Welcome (Full_Name inp) (library_code_of (length (data st)))
                  (strftime now) MONTHLY_FEE)\<rparr>"
    using registration_accepted [of inp tw now st] unfolding c by simp
  show ?thesis
    unfolding kept_def r
    using sequential_register [OF assms(2), of "new_user now inp"] assms(3)
    by (intro exI [of _ "AList.update (library_code_of (length (data st))) (new_user now inp) (data st)"])
       (simp add: load_data_save_data registered_codes_send_sms)
next
  case False
  then have "new_user_registration tw now inp register st = st \<or>
             new_user_registration tw now inp register st = st\<lparr>page := page st @ [Error_required_fields]\<rparr>"
    by (auto simp: new_user_registration_def Let_def)
  then show ?thesis
    using assms by (auto intro!: kept_same)
qed

lemma kept_login:
  assumes "load_data (files st) = Inr (data st)" "sequential (data st)" "page st = []"
  shows "kept (data st) (existing_user_login library_code login st)"
  using assms by (auto simp: existing_user_login_def intro!: kept_same split: option.split)

lemma kept_pending:
  assumes "load_data (files st) = Inr (data st)" "sequential (data st)" "page st = []"
  shows "kept (data st) (check_pending_payments tw today st)"
  using assms by (auto simp: check_pending_payments_def registered_codes_check_users intro!: kept_same)

lemma kept_download:
  assumes "load_data (files st) = Inr (data st)" "sequential (data st)" "page st = []"
  shows "kept (data st) (download_reports st)"
  using assms by (auto simp: download_reports_def Let_def load_data_report intro!: kept_same)

lemma kept_payment:
  assumes "load_data (files st) = Inr (data st)" "sequential (data st)" "page st = []"
  shows "kept (data st) (record_payment tw now library_code fetch_user entered confirm_payment st)"
proof (cases "map_of (data st) library_code")
  case None
  then show ?thesis using assms by (auto simp: record_payment_def intro!: kept_same)
next
  case (Some u)
  show ?thesis
  proof (cases "strptime (last_payment u)")
    case (Inl e)
    then show ?thesis using assms Some by (auto simp: record_payment_def intro!: kept_same)
  next
    case (Inr paid)
    show ?thesis
    proof (cases "fetch_user \<and> confirm_payment")
      case False
      then show ?thesis using assms Some Inr
        by (auto simp: record_payment_def Let_def intro!: kept_same)
    next
      case True
      define u' where "u' = u\<lparr>last_payment := strftime now,
                               payments := payments u @
                                 [\<lparr>date = strftime now,
                                   amount = number_input 1 1 entered * MONTHLY_FEE\<rparr>]\<rparr>"
      have f: "files (record_payment tw now library_code fetch_user entered confirm_payment st) =
               save_data (AList.update library_code u' (data st)) (files st)"
        and p: "registered_codes (page (record_payment tw now library_code fetch_user entered
                  confirm_payment st)) = []"
        using True Some Inr assms(3)
        by (simp_all add: record_payment_def Let_def u'_def registered_codes_send_sms)
      show ?thesis
        unfolding kept_def f p
        using sequential_pay [OF assms(2) Some, of u']
        by (intro exI [of _ "AList.update library_code u' (data st)"])
           (simp add: load_data_save_data)
    qed
  qed
qed

lemma kept_branch:
  assumes "load_data (files st) = Inr (data st)" "sequential (data st)" "page st = []"
  shows "kept (data st) (branch tw now c st)"
  using assms
  by (cases c) (simp_all add: kept_registration kept_login kept_pending kept_payment kept_download)

lemma script_sequential:
  assumes "load_data fs = Inr d" "sequential d"
  shows "\<exists>d'. load_data (fst (script tw now c fs)) = Inr d' \<and> sequential d' \<and>
           length d \<le> length d' \<and> registered_codes (snd (script tw now c fs)) = map library_code_of [length d..<length d']"
  using kept_branch [of "\<lparr>data = d, files = fs, page = []\<rparr>" tw now c] assms
  by (simp add: script_def Let_def kept_def)

lemma session_sequential:
  assumes "load_data fs = Inr d" "sequential d"
  shows "\<exists>d'. load_data (fst (session tw runs fs)) = Inr d' \<and> sequential d' \<and>
           length d \<le> length d' \<and>
           registered_codes (snd (session tw runs fs)) = map library_code_of [length d..<length d']"
  using assms
proof (induction runs arbitrary: fs d)
  case Nil
  then show ?case by simp
next
  case (Cons run runs)
  obtain now c where run: "run = (now, c)" by (cases run)
  obtain d1 where d1: "load_data (fst (script tw now c fs)) = Inr d1" "sequential d1"
    and l1: "length d \<le> length d1"
    and c1: "registered_codes (snd (script tw now c fs)) = map library_code_of [length d..<length d1]"
    using script_sequential [OF Cons.prems] by blast
  obtain d2 where d2: "load_data (fst (session tw runs (fst (script tw now c fs)))) = Inr d2"
    "sequential d2" "length d1 \<le> length d2"
    and c2: "registered_codes (snd (session tw runs (fst (script tw now c fs)))) =
             map library_code_of [length d1..<length d2]"
    using Cons.IH [OF d1] by blast
  have "[length d..<length d2] = [length d..<length d1] @ [length d1..<length d2]"
    using l1 d2(3) by (metis le_Suc_ex upt_add_eq_append)
  then show ?case
    using d2 c1 c2 l1
    by (intro exI [of _ d2]) (simp add: run split_beta Let_def registered_codes_append)
qed

lemma load_data_no_file: "fs FILENAME = None \<Longrightarrow> load_data fs = Inr []"
  by (simp add: load_data_def)

lemma sequential_empty: "sequential []"
  by (simp add: sequential_def)

lemma session_codes_distinct:
  assumes "load_data fs = Inr d" "sequential d"
  shows "distinct (map fst d @ registered_codes (snd (session tw runs fs)))"
proof -
  obtain d' :: dataset where l: "length d \<le> length d'"
    and c: "registered_codes (snd (session tw runs fs)) = map library_code_of [length d..<length d']"
    using session_sequential [OF assms, of tw runs] by blast
  have "map fst d @ registered_codes (snd (session tw runs fs)) =
        map library_code_of ([0..<length d] @ [length d..<length d'])"
    using assms(2) c by (simp add: sequential_def)
  also have "[0..<length d] @ [length d..<length d'] = [0..<length d']"
    using l by (metis le_Suc_ex upt_add_eq_append zero_le)
  finally show ?thesis by (simp only: distinct_library_codes)
qed

lemma str_2025001: "str 2025001 = ''2025001''"
  by (simp add: str_def str_nat.simps digit_char_def)

lemma str_2025002: "str 2025002 = ''2025002''"
  by (simp add: str_def str_nat.simps digit_char_def)

lemma asha_form_filled:
  "Full_Name asha_form \<noteq> []" "Father_s_Name asha_form \<noteq> []" "Contact_Number asha_form \<noteq> []"
  by (simp_all add: asha_form_def)

lemma two_registrations:
  "registered_codes (snd (session None
      [(\<lparr>year = 2025, month = 1, day = 10\<rparr>, New_User_Registration asha_form True),
       (\<lparr>year = 2025, month = 3, day = 15\<rparr>, New_User_Registration asha_form True)]
      Map.empty)) = [''L2025001'', ''L2025002'']"
  by (simp add: script_def load_data_def registration_accepted [OF asha_form_filled]
      save_data_def json_load_def json_dump_def send_sms_def str_2025001 str_2025002 Let_def)

text \<open>
  C1. A valid registration against a dataset of \<open>N\<close> members announces the code
  \<open>"L"\<close> followed by \<open>2025001 + N\<close> and stores the new member under it. Over any
  session of runs that starts without a dataset file, the codes announced are pairwise
  distinct; starting from a dataset that registrations filled, they are also distinct from
  the codes already there.
\<close>

theorem library_code_allocation:
  assumes "Full_Name inp \<noteq> []" and "Father_s_Name inp \<noteq> []" and "Contact_Number inp \<noteq> []"
  shows "registered_codes (page (new_user_registration tw now inp True st)) =
           registered_codes (page st) @ [''L'' @ str (2025001 + int (length (data st)))]
    \<and> map_of (data (new_user_registration tw now inp True st))
          (''L'' @ str (2025001 + int (length (data st)))) = Some (new_user now inp)
    \<and> (fs FILENAME = None \<longrightarrow> distinct (registered_codes (snd (session tw runs fs))))
    \<and> (load_data fs = Inr d \<and> sequential d \<longrightarrow>
          distinct (map fst d @ registered_codes (snd (session tw runs fs))))"
proof (intro conjI impI)
  have c: "2025001 + int (length (data st)) = int (length (data st)) + 2025001" by simp
  show "registered_codes (page (new_user_registration tw now inp True st)) =
           registered_codes (page st) @ [''L'' @ str (2025001 + int (length (data st)))]"
    unfolding c
    by (simp add: registration_accepted [OF assms] registered_codes_append
        registered_codes_send_sms)
  show "map_of (data (new_user_registration tw now inp True st))
          (''L'' @ str (2025001 + int (length (data st)))) = Some (new_user now inp)"
    unfolding c by (simp add: registration_accepted [OF assms] AList.update_conv')
next
  assume "fs FILENAME = None"
  then have "load_data fs = Inr []" by (rule load_data_no_file)
  from session_codes_distinct [OF this sequential_empty]
  show "distinct (registered_codes (snd (session tw runs fs)))" by simp
next
  assume "load_data fs = Inr d \<and> sequential d"
  then show "distinct (map fst d @ registered_codes (snd (session tw runs fs)))"
    using session_codes_distinct by blast
qed

theorem library_code_allocation_witness:
  "Full_Name asha_form \<noteq> [] \<and> Father_s_Name asha_form \<noteq> [] \<and> Contact_Number asha_form \<noteq> []
   \<and> (Map.empty :: filesystem) FILENAME = None
   \<and> load_data Map.empty = Inr [] \<and> sequential []
   \<and> registered_codes (page (new_user_registration None \<lparr>year = 2025, month = 1, day = 10\<rparr>
         asha_form True \<lparr>data = [], files = Map.empty, page = []\<rparr>)) = [''L2025001'']
   \<and> registered_codes (snd (session None
         [(\<lparr>year = 2025, month = 1, day = 10\<rparr>, New_User_Registration asha_form True),
          (\<lparr>year = 2025, month = 3, day = 15\<rparr>, New_User_Registration asha_form True)]
         Map.empty)) = [''L2025001'', ''L2025002'']
   \<and> distinct (registered_codes (snd (session None
         [(\<lparr>year = 2025, month = 1, day = 10\<rparr>, New_User_Registration asha_form True),
          (\<lparr>year = 2025, month = 3, day = 15\<rparr>, New_User_Registration asha_form True)]
         Map.empty)))"
proof -
  note t = library_code_allocation [OF asha_form_filled, where tw = None
      and now = "\<lparr>year = 2025, month = 1, day = 10\<rparr>"
      and st = "\<lparr>data = [], files = Map.empty, page = []\<rparr>"
      and fs = Map.empty and d = "[]"
      and runs = "[(\<lparr>year = 2025, month = 1, day = 10\<rparr>, New_User_Registration asha_form True),
        (\<lparr>year = 2025, month = 3, day = 15\<rparr>, New_User_Registration asha_form True)]"]
  have 1: "registered_codes (page (new_user_registration None \<lparr>year = 2025, month = 1, day = 10\<rparr>
         asha_form True \<lparr>data = [], files = Map.empty, page = []\<rparr>)) = [''L2025001'']"
    using t by (simp add: str_2025001)
  have 2: "distinct (registered_codes (snd (session None
         [(\<lparr>year = 2025, month = 1, day = 10\<rparr>, New_User_Registration asha_form True),
          (\<lparr>year = 2025, month = 3, day = 15\<rparr>, New_User_Registration asha_form True)]
         Map.empty)))"
    using t by blast
  show ?thesis
    using 1 2 two_registrations asha_form_filled load_data_no_file [of Map.empty] sequential_empty
    by simp
qed

subsection \<open>Registration without a required field\<close>

lemma script_registration_rejected:
  assumes "Full_Name inp = [] \<or> Father_s_Name inp = [] \<or> Contact_Number inp = []"
  shows "script tw now (New_User_Registration inp True) fs =
     (fs, case load_data fs of Inl e \<Rightarrow> [Uncaught e] | Inr d \<Rightarrow> [Error_required_fields])"
  by (simp add: script_def registration_rejected [OF assms] split: sum.split)

text \<open>
  C5. A registration with an empty name, father's name or contact is refused with the
  required-fields error: the run shows that error and nothing else, announces no code,
  and leaves the dictionary and the files as they were.
\<close>

theorem registration_requires_fields:
  assumes "Full_Name inp = [] \<or> Father_s_Name inp = [] \<or> Contact_Number inp = []"
  shows "new_user_registration tw now inp True st = st\<lparr>page := page st @ [Error_required_fields]\<rparr>
    \<and> data (new_user_registration tw now inp True st) = data st
    \<and> files (new_user_registration tw now inp True st) = files st
    \<and> registered_codes (page (new_user_registration tw now inp True st)) =
        registered_codes (page st)
    \<and> fst (script tw now (New_User_Registration inp True) fs) = fs
    \<and> registered_codes (snd (script tw now (New_User_Registration inp True) fs)) = []
    \<and> (load_data fs = Inr d \<longrightarrow>
          snd (script tw now (New_User_Registration inp True) fs) = [Error_required_fields])"
  by (simp add: registration_rejected [OF assms] script_registration_rejected [OF assms]
      registered_codes_append split: sum.split)

theorem registration_requires_fields_witness:
  "Full_Name (asha_form\<lparr>Full_Name := []\<rparr>) = []
   \<and> new_user_registration None \<lparr>year = 2025, month = 1, day = 10\<rparr>
         (asha_form\<lparr>Full_Name := []\<rparr>) True
         \<lparr>data = [(''L2025001'', asha)], files = Map.empty, page = []\<rparr> =
       \<lparr>data = [(''L2025001'', asha)], files = Map.empty, page = [Error_required_fields]\<rparr>
   \<and> script None \<lparr>year = 2025, month = 1, day = 10\<rparr>
         (New_User_Registration (asha_form\<lparr>Full_Name := []\<rparr>) True)
         [FILENAME \<mapsto> JSON [(''L2025001'', asha)]] =
       ([FILENAME \<mapsto> JSON [(''L2025001'', asha)]], [Error_required_fields])"
proof -
  have h: "Full_Name (asha_form\<lparr>Full_Name := []\<rparr>) = [] \<or>
           Father_s_Name (asha_form\<lparr>Full_Name := []\<rparr>) = [] \<or>
           Contact_Number (asha_form\<lparr>Full_Name := []\<rparr>) = []"
    by simp
  have l: "load_data [FILENAME \<mapsto> JSON [(''L2025001'', asha)]] = Inr [(''L2025001'', asha)]"
    by (simp add: load_data_def json_load_def)
  note t = registration_requires_fields [OF h, where tw = None
      and now = "\<lparr>year = 2025, month = 1, day = 10\<rparr>"
      and st = "\<lparr>data = [(''L2025001'', asha)], files = Map.empty, page = []\<rparr>"
      and fs = "[FILENAME \<mapsto> JSON [(''L2025001'', asha)]]" and d = "[(''L2025001'', asha)]"]
  have 1: "new_user_registration None \<lparr>year = 2025, month = 1, day = 10\<rparr>
         (asha_form\<lparr>Full_Name := []\<rparr>) True
         \<lparr>data = [(''L2025001'', asha)], files = Map.empty, page = []\<rparr> =
       \<lparr>data = [(''L2025001'', asha)], files = Map.empty, page = [Error_required_fields]\<rparr>"
    using t by simp
  have 2: "script None \<lparr>year = 2025, month = 1, day = 10\<rparr>
         (New_User_Registration (asha_form\<lparr>Full_Name := []\<rparr>) True)
         [FILENAME \<mapsto> JSON [(''L2025001'', asha)]] =
       ([FILENAME \<mapsto> JSON [(''L2025001'', asha)]], [Error_required_fields])"
    using t l by (simp add: prod_eq_iff)
  show ?thesis using 1 2 by simp
qed

subsection \<open>Loading the dataset\<close>

lemma script_load_failed:
  assumes "load_data fs = Inl e"
  shows "script tw now c fs = (fs, [Uncaught e])"
  using assms by (simp add: script_def)

text \<open>
  C6. \<^verbatim>\<open>load_data\<close> returns the empty dictionary when there is no dataset file, the
  whole dictionary when the file holds one, and fails with the decoding error of
  \<^verbatim>\<open>json.load\<close> when the file cannot be parsed. The error is not caught: the run ends
  with it and the file stays as it was, it is not replaced by an empty dataset.
\<close>

theorem load_data_cases:
  "(fs FILENAME = None \<longrightarrow> load_data fs = Inr [])
   \<and> (fs FILENAME = Some (JSON d) \<longrightarrow> load_data fs = Inr d)
   \<and> (fs FILENAME = Some f \<and> (\<forall>d'. f \<noteq> JSON d') \<longrightarrow>
        load_data fs = Inl JSONDecodeError \<and>
        script tw now c fs = (fs, [Uncaught JSONDecodeError]))
   \<and> load_data (save_data d fs) = Inr d"
proof (intro conjI impI)
  show "load_data fs = Inr []" if "fs FILENAME = None"
    using that by (simp add: load_data_def)
  show "load_data fs = Inr d" if "fs FILENAME = Some (JSON d)"
    using that by (simp add: load_data_def json_load_def)
  show "load_data (save_data d fs) = Inr d"
    by (rule load_data_save_data)
next
  assume a: "fs FILENAME = Some f \<and> (\<forall>d'. f \<noteq> JSON d')"
  then show l: "load_data fs = Inl JSONDecodeError"
    by (cases f) (simp_all add: load_data_def json_load_def)
  show "script tw now c fs = (fs, [Uncaught JSONDecodeError])"
    by (rule script_load_failed [OF l])
qed

theorem load_data_cases_witness:
  "(Map.empty :: filesystem) FILENAME = None \<and> load_data Map.empty = Inr []
   \<and> [FILENAME \<mapsto> JSON [(''L2025001'', asha)]] FILENAME = Some (JSON [(''L2025001'', asha)])
   \<and> load_data [FILENAME \<mapsto> JSON [(''L2025001'', asha)]] = Inr [(''L2025001'', asha)]
   \<and> [FILENAME \<mapsto> Not_JSON] FILENAME = Some Not_JSON \<and> (\<forall>d'. Not_JSON \<noteq> JSON d')
   \<and> load_data [FILENAME \<mapsto> Not_JSON] = Inl JSONDecodeError
   \<and> script None \<lparr>year = 2025, month = 1, day = 10\<rparr> (New_User_Registration asha_form True)
         [FILENAME \<mapsto> Not_JSON] = ([FILENAME \<mapsto> Not_JSON], [Uncaught JSONDecodeError])"
  using load_data_cases [of Map.empty "[]" Not_JSON]
    load_data_cases [of "[FILENAME \<mapsto> JSON [(''L2025001'', asha)]]" "[(''L2025001'', asha)]" Not_JSON]
    load_data_cases [of "[FILENAME \<mapsto> Not_JSON]" "[]" Not_JSON None
      "\<lparr>year = 2025, month = 1, day = 10\<rparr>" "New_User_Registration asha_form True"]
  by simp

subsection \<open>Recording a payment\<close>

lemma record_payment_confirmed:
  assumes "map_of (data st) code = Some u" "strptime (last_payment u) = Inr paid"
  shows "record_payment tw now code True entered True st =
     \<lparr>data = AList.update code (paid_user now (number_input 1 1 entered * MONTHLY_FEE) u) (data st),
      files = save_data
                (AList.update code (paid_user now (number_input 1 1 entered * MONTHLY_FEE) u) (data st))
                (files st),
      page = page st @
             [Write_user (name u) code, Write_months_due (months_due now paid),
              Write_payment_amount (number_input 1 1 entered * MONTHLY_FEE),
              Success_payment (number_input 1 1 entered * MONTHLY_FEE)] @
             send_sms tw (contact u)
               (Payment_received (number_input 1 1 entered * MONTHLY_FEE) (name u))\<rparr>"
  using assms by (simp add: record_payment_def Let_def paid_user_def)

lemma months_due_same: "months_due now now = 0"
  by (simp add: months_due_def)

lemma strftime_2024_03_15: "strftime \<lparr>year = 2024, month = 3, day = 15\<rparr> = ''2024-03-15''"
  by (simp add: strftime_def zfill_def str_nat.simps digit_char_def)

lemma valid_2024_03_15: "valid_datetime \<lparr>year = 2024, month = 3, day = 15\<rparr>"
  by (simp add: valid_datetime_def days_in_month_def)

lemma asha_last_payment:
  "strptime (last_payment asha) = Inr \<lparr>year = 2024, month = 1, day = 31\<rparr>"
  by (simp add: asha_def strptime_2024_01_31)

text \<open>
  C4. A confirmed payment for \<open>months \<ge> 1\<close> months on the date \<open>now\<close> appends exactly
  one payment, of \<open>months * MONTHLY_FEE\<close> dated \<open>now\<close>, and sets the last payment date
  to \<open>now\<close>. The months due as of that same date are then 0: the pending check reports
  the member as up to date and a new fetch writes 0 months due. The clock gives a valid
  date with a year of four digits.
\<close>

theorem payment_recorded:
  assumes "map_of (data st) code = Some u" and "strptime (last_payment u) = Inr paid"
    and "1 \<le> months" and "valid_datetime now" and "1000 \<le> year now"
  shows "\<exists>u'. map_of (data (record_payment tw now code True months True st)) code = Some u'
    \<and> payments u' = payments u @ [\<lparr>date = strftime now, amount = months * MONTHLY_FEE\<rparr>]
    \<and> length (payments u') = length (payments u) + 1
    \<and> last_payment u' = strftime now
    \<and> strptime (last_payment u') = Inr now
    \<and> months_due now now = 0
    \<and> check_user tw' now code u' = Inr [Info_up_to_date (name u) code]
    \<and> page (record_payment tw' now code True entered False
               (record_payment tw now code True months True st)) =
        page (record_payment tw now code True months True st) @
        [Write_user (name u) code, Write_months_due 0,
         Write_payment_amount (number_input 1 1 entered * MONTHLY_FEE)]
    \<and> load_data (files (record_payment tw now code True months True st)) =
        Inr (data (record_payment tw now code True months True st))"
proof -
  define u' where "u' = paid_user now (months * MONTHLY_FEE) u"
  have n: "number_input 1 1 months = months"
    using assms(3) by (simp add: number_input_def)
  have r: "record_payment tw now code True months True st =
     \<lparr>data = AList.update code u' (data st),
      files = save_data (AList.update code u' (data st)) (files st),
      page = page st @
             [Write_user (name u) code, Write_months_due (months_due now paid),
              Write_payment_amount (months * MONTHLY_FEE),
              Success_payment (months * MONTHLY_FEE)] @
             send_sms tw (contact u) (Payment_received (months * MONTHLY_FEE) (name u))\<rparr>"
    using record_payment_confirmed [OF assms(1,2), of tw now months] by (simp add: n u'_def)
  have m: "map_of (data (record_payment tw now code True months True st)) code = Some u'"
    by (simp add: r AList.update_conv')
  have p: "strptime (last_payment u') = Inr now"
    using strptime_strftime [OF assms(4,5)] by (simp add: u'_def paid_user_def)
  have nm: "name u' = name u" by (simp add: u'_def paid_user_def)
  have c: "check_user tw' now code u' = Inr [Info_up_to_date (name u) code]"
    by (simp add: check_user_parsed [OF p] months_due_same nm)
  have f: "page (record_payment tw' now code True entered False
               (record_payment tw now code True months True st)) =
        page (record_payment tw now code True months True st) @
        [Write_user (name u) code, Write_months_due 0,
         Write_payment_amount (number_input 1 1 entered * MONTHLY_FEE)]"
    by (simp add: record_payment_fetched [OF m p] months_due_same nm)
  have l: "load_data (files (record_payment tw now code True months True st)) =
        Inr (data (record_payment tw now code True months True st))"
    by (simp add: r load_data_save_data)
  show ?thesis
    using m p c f l
    by (intro exI [of _ u']) (simp add: u'_def paid_user_def months_due_same)
qed


theorem payment_recorded_witness:
  "map_of (data \<lparr>data = [(''L2025001'', asha)], files = Map.empty, page = []\<rparr>) ''L2025001'' =
     Some asha
   \<and> strptime (last_payment asha) = Inr \<lparr>year = 2024, month = 1, day = 31\<rparr>
   \<and> (1::int) \<le> 2
   \<and> valid_datetime \<lparr>year = 2024, month = 3, day = 15\<rparr>
   \<and> (1000::nat) \<le> year \<lparr>year = 2024, month = 3, day = 15\<rparr>
   \<and> (\<exists>u'. map_of (data (record_payment None \<lparr>year = 2024, month = 3, day = 15\<rparr> ''L2025001''
                 True 2 True \<lparr>data = [(''L2025001'', asha)], files = Map.empty, page = []\<rparr>))
               ''L2025001'' = Some u'
         \<and> payments u' = [\<lparr>date = ''2024-01-31'', amount = 500\<rparr>,
                           \<lparr>date = ''2024-03-15'', amount = 1000\<rparr>]
         \<and> last_payment u' = ''2024-03-15''
         \<and> check_user None \<lparr>year = 2024, month = 3, day = 15\<rparr> ''L2025001'' u' =
             Inr [Info_up_to_date ''Asha'' ''L2025001''])"
proof -
  have m: "map_of (data \<lparr>data = [(''L2025001'', asha)], files = Map.empty, page = []\<rparr>)
             ''L2025001'' = Some asha"
    by simp
  have one: "(1::int) \<le> 2" by simp
  have y: "(1000::nat) \<le> year \<lparr>year = 2024, month = 3, day = 15\<rparr>" by simp
  obtain u' where u': "map_of (data (record_payment None \<lparr>year = 2024, month = 3, day = 15\<rparr>
                 ''L2025001'' True 2 True
                 \<lparr>data = [(''L2025001'', asha)], files = Map.empty, page = []\<rparr>))
               ''L2025001'' = Some u'"
    "payments u' = payments asha @
       [\<lparr>date = strftime \<lparr>year = 2024, month = 3, day = 15\<rparr>, amount = 2 * MONTHLY_FEE\<rparr>]"
    "last_payment u' = strftime \<lparr>year = 2024, month = 3, day = 15\<rparr>"
    "check_user None \<lparr>year = 2024, month = 3, day = 15\<rparr> ''L2025001'' u' =
       Inr [Info_up_to_date (name asha) ''L2025001'']"
    using payment_recorded [OF m asha_last_payment one valid_2024_03_15 y,
        where tw = None and tw' = None]
    by blast
  have "payments u' = [\<lparr>date = ''2024-01-31'', amount = 500\<rparr>,
                       \<lparr>date = ''2024-03-15'', amount = 1000\<rparr>]"
    and "last_payment u' = ''2024-03-15''"
    and "check_user None \<lparr>year = 2024, month = 3, day = 15\<rparr> ''L2025001'' u' =
       Inr [Info_up_to_date ''Asha'' ''L2025001'']"
    using u'(2,3,4) by (simp_all add: strftime_2024_03_15 asha_def MONTHLY_FEE_def)
  with u'(1) have "\<exists>u'. map_of (data (record_payment None \<lparr>year = 2024, month = 3, day = 15\<rparr>
                 ''L2025001'' True 2 True
                 \<lparr>data = [(''L2025001'', asha)], files = Map.empty, page = []\<rparr>))
               ''L2025001'' = Some u'
         \<and> payments u' = [\<lparr>date = ''2024-01-31'', amount = 500\<rparr>,
                           \<lparr>date = ''2024-03-15'', amount = 1000\<rparr>]
         \<and> last_payment u' = ''2024-03-15''
         \<and> check_user None \<lparr>year = 2024, month = 3, day = 15\<rparr> ''L2025001'' u' =
             Inr [Info_up_to_date ''Asha'' ''L2025001'']"
    by blast
  then show ?thesis
    using m asha_last_payment one valid_2024_03_15 y by blast
qed

subsection \<open>What recording a payment leaves alone\<close>

lemma update_nth_other:
  "i < length al \<Longrightarrow> fst (al ! i) \<noteq> k \<Longrightarrow> AList.update k v al ! i = al ! i"
proof (induction al arbitrary: i)
  case Nil
  then show ?case by simp
next
  case (Cons p al)
  then show ?case by (cases i) auto
qed

lemma update_present_keys:
  assumes "map_of al k = Some v0"
  shows "map fst (AList.update k v al) = map fst al"
proof -
  have "k \<in> set (map fst al)" using assms by (auto dest: map_of_SomeD intro: rev_image_eqI)
  then show ?thesis by (simp add: AList.update_keys)
qed

text \<open>The three ways the Record Payment branch can end.\<close>

lemma record_payment_outcomes:
  "(data (record_payment tw now code fetch_user entered confirm_payment st) = data st \<and>
    files (record_payment tw now code fetch_user entered confirm_payment st) = files st)
   \<or> (\<exists>u paid. map_of (data st) code = Some u \<and> strptime (last_payment u) = Inr paid \<and>
         fetch_user \<and> confirm_payment \<and>
         record_payment tw now code fetch_user entered confirm_payment st =
         record_payment tw now code True entered True st)"
  by (auto simp: record_payment_def Let_def split: option.split sum.split)


lemma record_payment_data:
  "map fst (data (record_payment tw now code fetch_user entered confirm_payment st)) =
     map fst (data st)
   \<and> (\<forall>i < length (data st). fst (data st ! i) \<noteq> code \<longrightarrow>
        data (record_payment tw now code fetch_user entered confirm_payment st) ! i = data st ! i)
   \<and> (\<forall>c. c \<noteq> code \<longrightarrow>
        map_of (data (record_payment tw now code fetch_user entered confirm_payment st)) c =
        map_of (data st) c)
   \<and> (map_of (data st) code = None \<longrightarrow>
        data (record_payment tw now code fetch_user entered confirm_payment st) = data st)
   \<and> (\<forall>u. map_of (data st) code = Some u \<longrightarrow>
        (\<exists>u'. map_of (data (record_payment tw now code fetch_user entered confirm_payment st))
                 code = Some u'
           \<and> name u' = name u \<and> father_name u' = father_name u \<and> address u' = address u
           \<and> email u' = email u \<and> contact u' = contact u \<and> seatno u' = seatno u
           \<and> admission_date u' = admission_date u
           \<and> (u' = u \<or> (\<exists>pay. payments u' = payments u @ [pay]))))"
proof -
  define st' where "st' = record_payment tw now code fetch_user entered confirm_payment st"
  consider (same) "data st' = data st"
    | (paid) u where "map_of (data st) code = Some u"
        "data st' = AList.update code (paid_user now (number_input 1 1 entered * MONTHLY_FEE) u) (data st)"
    using record_payment_outcomes [of tw now code fetch_user entered confirm_payment st]
      record_payment_confirmed [of st code _ _ tw now entered]
    unfolding st'_def by fastforce
  then have "map fst (data st') = map fst (data st)
    \<and> (\<forall>i < length (data st). fst (data st ! i) \<noteq> code \<longrightarrow> data st' ! i = data st ! i)
    \<and> (\<forall>c. c \<noteq> code \<longrightarrow> map_of (data st') c = map_of (data st) c)
    \<and> (map_of (data st) code = None \<longrightarrow> data st' = data st)
    \<and> (\<forall>u. map_of (data st) code = Some u \<longrightarrow>
          (\<exists>u'. map_of (data st') code = Some u'
             \<and> name u' = name u \<and> father_name u' = father_name u \<and> address u' = address u
             \<and> email u' = email u \<and> contact u' = contact u \<and> seatno u' = seatno u
             \<and> admission_date u' = admission_date u
             \<and> (u' = u \<or> (\<exists>pay. payments u' = payments u @ [pay]))))"
  proof cases
    case same
    then show ?thesis by auto
  next
    case paid
    have k: "map fst (data st') = map fst (data st)"
      unfolding paid(2) by (rule update_present_keys [OF paid(1)])
    have n: "\<forall>i < length (data st). fst (data st ! i) \<noteq> code \<longrightarrow> data st' ! i = data st ! i"
      unfolding paid(2) by (simp add: update_nth_other)
    have o: "\<forall>c. c \<noteq> code \<longrightarrow> map_of (data st') c = map_of (data st) c"
      unfolding paid(2) by (simp add: AList.update_conv')
    have m: "map_of (data st') code =
             Some (paid_user now (number_input 1 1 entered * MONTHLY_FEE) u)"
      unfolding paid(2) by (simp add: AList.update_conv')
    show ?thesis
      using k n o m paid(1) by (simp add: paid_user_def)
  qed
  then show ?thesis unfolding st'_def .
qed

lemma record_payment_files:
  assumes "load_data (files st) = Inr (data st)"
  shows "load_data (files (record_payment tw now code fetch_user entered confirm_payment st)) =
         Inr (data (record_payment tw now code fetch_user entered confirm_payment st))"
  using record_payment_outcomes [of tw now code fetch_user entered confirm_payment st]
proof
  assume "data (record_payment tw now code fetch_user entered confirm_payment st) = data st \<and>
    files (record_payment tw now code fetch_user entered confirm_payment st) = files st"
  then show ?thesis using assms by simp
next
  assume "\<exists>u paid. map_of (data st) code = Some u \<and> strptime (last_payment u) = Inr paid \<and>
         fetch_user \<and> confirm_payment \<and>
         record_payment tw now code fetch_user entered confirm_payment st =
         record_payment tw now code True entered True st"
  then obtain u paid where "map_of (data st) code = Some u" "strptime (last_payment u) = Inr paid"
    "record_payment tw now code fetch_user entered confirm_payment st =
         record_payment tw now code True entered True st"
    by blast
  then show ?thesis
    by (simp add: record_payment_confirmed load_data_save_data)
qed

lemma record_payment_other_files:
  assumes "f \<noteq> FILENAME"
  shows "files (record_payment tw now code fetch_user entered confirm_payment st) f = files st f"
  using record_payment_outcomes [of tw now code fetch_user entered confirm_payment st]
proof
  assume "data (record_payment tw now code fetch_user entered confirm_payment st) = data st \<and>
    files (record_payment tw now code fetch_user entered confirm_payment st) = files st"
  then show ?thesis by simp
next
  assume "\<exists>u paid. map_of (data st) code = Some u \<and> strptime (last_payment u) = Inr paid \<and>
         fetch_user \<and> confirm_payment \<and>
         record_payment tw now code fetch_user entered confirm_payment st =
         record_payment tw now code True entered True st"
  then obtain u paid where "map_of (data st) code = Some u" "strptime (last_payment u) = Inr paid"
    "record_payment tw now code fetch_user entered confirm_payment st =
         record_payment tw now code True entered True st"
    by blast
  then show ?thesis
    using assms by (simp add: record_payment_confirmed save_data_def)
qed

lemma script_record_payment:
  assumes "load_data fs = Inr d"
  shows "fst (script tw now (Record_Payment code fetch_user entered confirm_payment) fs) =
         files (record_payment tw now code fetch_user entered confirm_payment
                  \<lparr>data = d, files = fs, page = []\<rparr>)"
  using assms by (simp add: script_def Let_def)

lemma script_record_payment_other_files:
  assumes "f \<noteq> FILENAME"
  shows "fst (script tw now (Record_Payment code fetch_user entered confirm_payment) fs) f = fs f"
proof (cases "load_data fs")
  case (Inl e)
  then show ?thesis by (simp add: script_def)
next
  case (Inr d)
  show ?thesis
    unfolding script_record_payment [OF Inr]
    using record_payment_other_files [OF assms, of tw now code fetch_user entered confirm_payment
        "\<lparr>data = d, files = fs, page = []\<rparr>"]
    by simp
qed


lemma two_members_loaded: "load_data (files two_members) = Inr (data two_members)"
  by (simp add: two_members_def load_data_def json_load_def)

text \<open>
  C9. The Record Payment branch changes at most one member, the one under the code
  entered: it appends one payment to that member's payments, keeping the earlier entries
  as they were, and sets the last payment date. The member's other fields, every other
  member and the order and set of the codes are unchanged; no record is deleted. This
  holds of the dictionary of the run and of the dataset file that the run leaves, which
  is what the next run loads: the file holds the dictionary again, and a run of the
  script on a file that holds \<open>d\<close> leaves a file that holds \<open>d\<close> with at most that one
  member changed. Files other than the dataset file are untouched, and a dataset file
  that cannot be parsed is left as it is.
\<close>

theorem record_payment_frame:
  assumes "st' = record_payment tw now code fetch_user entered confirm_payment st"
    and "fs' = fst (script tw now (Record_Payment code fetch_user entered confirm_payment) fs)"
  shows "map fst (data st') = map fst (data st)
    \<and> (\<forall>i < length (data st). fst (data st ! i) \<noteq> code \<longrightarrow> data st' ! i = data st ! i)
    \<and> (\<forall>c. c \<noteq> code \<longrightarrow> map_of (data st') c = map_of (data st) c)
    \<and> (map_of (data st) code = None \<longrightarrow> data st' = data st)
    \<and> (\<forall>u. map_of (data st) code = Some u \<longrightarrow>
          (\<exists>u'. map_of (data st') code = Some u'
             \<and> name u' = name u \<and> father_name u' = father_name u \<and> address u' = address u
             \<and> email u' = email u \<and> contact u' = contact u \<and> seatno u' = seatno u
             \<and> admission_date u' = admission_date u
             \<and> (u' = u \<or> (\<exists>pay. payments u' = payments u @ [pay]))))
    \<and> (load_data (files st) = Inr (data st) \<longrightarrow> load_data (files st') = Inr (data st'))
    \<and> (\<forall>f. f \<noteq> FILENAME \<longrightarrow> files st' f = files st f)
    \<and> (\<forall>f. f \<noteq> FILENAME \<longrightarrow> fs' f = fs f)
    \<and> (\<forall>e. load_data fs = Inl e \<longrightarrow> fs' = fs)
    \<and> (\<forall>d. load_data fs = Inr d \<longrightarrow>
          (\<exists>d'. load_data fs' = Inr d'
             \<and> map fst d' = map fst d
             \<and> (\<forall>i < length d. fst (d ! i) \<noteq> code \<longrightarrow> d' ! i = d ! i)
             \<and> (\<forall>c. c \<noteq> code \<longrightarrow> map_of d' c = map_of d c)
             \<and> (map_of d code = None \<longrightarrow> d' = d)
             \<and> (\<forall>u. map_of d code = Some u \<longrightarrow>
                   (\<exists>u'. map_of d' code = Some u'
                      \<and> name u' = name u \<and> father_name u' = father_name u
                      \<and> address u' = address u \<and> email u' = email u
                      \<and> contact u' = contact u \<and> seatno u' = seatno u
                      \<and> admission_date u' = admission_date u
                      \<and> (u' = u \<or> (\<exists>pay. payments u' = payments u @ [pay]))))))"
proof -
  have mem: "map fst (data st') = map fst (data st)
    \<and> (\<forall>i < length (data st). fst (data st ! i) \<noteq> code \<longrightarrow> data st' ! i = data st ! i)
    \<and> (\<forall>c. c \<noteq> code \<longrightarrow> map_of (data st') c = map_of (data st) c)
    \<and> (map_of (data st) code = None \<longrightarrow> data st' = data st)
    \<and> (\<forall>u. map_of (data st) code = Some u \<longrightarrow>
          (\<exists>u'. map_of (data st') code = Some u'
             \<and> name u' = name u \<and> father_name u' = father_name u \<and> address u' = address u
             \<and> email u' = email u \<and> contact u' = contact u \<and> seatno u' = seatno u
             \<and> admission_date u' = admission_date u
             \<and> (u' = u \<or> (\<exists>pay. payments u' = payments u @ [pay]))))"
    unfolding assms(1) by (rule record_payment_data)
  have sync: "load_data (files st) = Inr (data st) \<longrightarrow> load_data (files st') = Inr (data st')"
    unfolding assms(1) by (simp add: record_payment_files)
  have other: "\<forall>f. f \<noteq> FILENAME \<longrightarrow> files st' f = files st f"
    unfolding assms(1) by (simp add: record_payment_other_files)
  have other': "\<forall>f. f \<noteq> FILENAME \<longrightarrow> fs' f = fs f"
    unfolding assms(2) by (simp add: script_record_payment_other_files)
  have failed: "\<forall>e. load_data fs = Inl e \<longrightarrow> fs' = fs"
    unfolding assms(2) by (simp add: script_def)
  have stored: "\<forall>d. load_data fs = Inr d \<longrightarrow>
          (\<exists>d'. load_data fs' = Inr d'
             \<and> map fst d' = map fst d
             \<and> (\<forall>i < length d. fst (d ! i) \<noteq> code \<longrightarrow> d' ! i = d ! i)
             \<and> (\<forall>c. c \<noteq> code \<longrightarrow> map_of d' c = map_of d c)
             \<and> (map_of d code = None \<longrightarrow> d' = d)
             \<and> (\<forall>u. map_of d code = Some u \<longrightarrow>
                   (\<exists>u'. map_of d' code = Some u'
                      \<and> name u' = name u \<and> father_name u' = father_name u
                      \<and> address u' = address u \<and> email u' = email u
                      \<and> contact u' = contact u \<and> seatno u' = seatno u
                      \<and> admission_date u' = admission_date u
                      \<and> (u' = u \<or> (\<exists>pay. payments u' = payments u @ [pay])))))"
  proof (intro allI impI)
    fix d assume l: "load_data fs = Inr d"
    define s0 :: app where "s0 = \<lparr>data = d, files = fs, page = []\<rparr>"
    define s1 where "s1 = record_payment tw now code fetch_user entered confirm_payment s0"
    have f: "fs' = files s1"
      unfolding assms(2) s1_def s0_def by (rule script_record_payment [OF l])
    have "load_data (files s0) = Inr (data s0)" using l by (simp add: s0_def)
    then have r: "load_data fs' = Inr (data s1)"
      unfolding f s1_def by (rule record_payment_files)
    have fr: "map fst (data s1) = map fst d
             \<and> (\<forall>i < length d. fst (d ! i) \<noteq> code \<longrightarrow> data s1 ! i = d ! i)
             \<and> (\<forall>c. c \<noteq> code \<longrightarrow> map_of (data s1) c = map_of d c)
             \<and> (map_of d code = None \<longrightarrow> data s1 = d)
             \<and> (\<forall>u. map_of d code = Some u \<longrightarrow>
                   (\<exists>u'. map_of (data s1) code = Some u'
                      \<and> name u' = name u \<and> father_name u' = father_name u
                      \<and> address u' = address u \<and> email u' = email u
                      \<and> contact u' = contact u \<and> seatno u' = seatno u
                      \<and> admission_date u' = admission_date u
                      \<and> (u' = u \<or> (\<exists>pay. payments u' = payments u @ [pay]))))"
      using record_payment_data [of tw now code fetch_user entered confirm_payment s0]
      unfolding s1_def [symmetric] by (simp add: s0_def)
    show "\<exists>d'. load_data fs' = Inr d'
             \<and> map fst d' = map fst d
             \<and> (\<forall>i < length d. fst (d ! i) \<noteq> code \<longrightarrow> d' ! i = d ! i)
             \<and> (\<forall>c. c \<noteq> code \<longrightarrow> map_of d' c = map_of d c)
             \<and> (map_of d code = None \<longrightarrow> d' = d)
             \<and> (\<forall>u. map_of d code = Some u \<longrightarrow>
                   (\<exists>u'. map_of d' code = Some u'
                      \<and> name u' = name u \<and> father_name u' = father_name u
                      \<and> address u' = address u \<and> email u' = email u
                      \<and> contact u' = contact u \<and> seatno u' = seatno u
                      \<and> admission_date u' = admission_date u
                      \<and> (u' = u \<or> (\<exists>pay. payments u' = payments u @ [pay]))))"
      using r fr by (intro exI [of _ "data s1"] conjI) blast+
  qed
  show ?thesis
    using mem sync other other' failed stored by (intro conjI) blast+
qed


theorem record_payment_frame_witness:
  "(1::nat) < length (data two_members) \<and> fst (data two_members ! 1) \<noteq> ''L2025001''
   \<and> ''L2025002'' \<noteq> ''L2025001''
   \<and> map_of (data two_members) ''L2025001'' = Some asha
   \<and> load_data (files two_members) = Inr (data two_members)
   \<and> ''library_report.xlsx'' \<noteq> FILENAME
   \<and> load_data [FILENAME \<mapsto> Not_JSON] = Inl JSONDecodeError
   \<and> map fst (data (record_payment None \<lparr>year = 2024, month = 3, day = 15\<rparr> ''L2025001''
                      True 2 True two_members)) = [''L2025001'', ''L2025002'']
   \<and> data (record_payment None \<lparr>year = 2024, month = 3, day = 15\<rparr> ''L2025001''
              True 2 True two_members) ! 1 = (''L2025002'', ravi)
   \<and> map_of (data (record_payment None \<lparr>year = 2024, month = 3, day = 15\<rparr> ''L2025001''
                     True 2 True two_members)) ''L2025002'' = Some ravi
   \<and> (\<exists>u'. map_of (data (record_payment None \<lparr>year = 2024, month = 3, day = 15\<rparr> ''L2025001''
                          True 2 True two_members)) ''L2025001'' = Some u'
          \<and> name u' = ''Asha'' \<and> father_name u' = ''Ram'' \<and> seatno u' = ''7''
          \<and> admission_date u' = ''2024-01-31''
          \<and> (u' = asha \<or> (\<exists>pay. payments u' = payments asha @ [pay])))
   \<and> load_data (files (record_payment None \<lparr>year = 2024, month = 3, day = 15\<rparr> ''L2025001''
                     True 2 True two_members)) =
       Inr (data (record_payment None \<lparr>year = 2024, month = 3, day = 15\<rparr> ''L2025001''
                     True 2 True two_members))
   \<and> (\<exists>d'. load_data (fst (script None \<lparr>year = 2024, month = 3, day = 15\<rparr>
                               (Record_Payment ''L2025001'' True 2 True) (files two_members))) =
              Inr d'
          \<and> map fst d' = [''L2025001'', ''L2025002'']
          \<and> d' ! 1 = (''L2025002'', ravi)
          \<and> map_of d' ''L2025002'' = Some ravi
          \<and> (\<exists>u'. map_of d' ''L2025001'' = Some u' \<and> name u' = ''Asha''
                \<and> (u' = asha \<or> (\<exists>pay. payments u' = payments asha @ [pay]))))
   \<and> fst (script None \<lparr>year = 2024, month = 3, day = 15\<rparr>
             (Record_Payment ''L2025001'' True 2 True) (files two_members))
         ''library_report.xlsx'' = files two_members ''library_report.xlsx''
   \<and> fst (script None \<lparr>year = 2024, month = 3, day = 15\<rparr>
             (Record_Payment ''L2025001'' True 2 True) [FILENAME \<mapsto> Not_JSON]) =
       [FILENAME \<mapsto> Not_JSON]"
proof -
  note t = record_payment_frame [OF refl refl, of None "\<lparr>year = 2024, month = 3, day = 15\<rparr>"
      "''L2025001''" True 2 True two_members "files two_members"]
  note t2 = record_payment_frame [OF refl refl, of None "\<lparr>year = 2024, month = 3, day = 15\<rparr>"
      "''L2025001''" True 2 True two_members "[FILENAME \<mapsto> Not_JSON]"]
  note p1 = t [THEN conjunct1]
  note p2 = t [THEN conjunct2, THEN conjunct1]
  note p3 = t [THEN conjunct2, THEN conjunct2, THEN conjunct1]
  note p5 = t [THEN conjunct2, THEN conjunct2, THEN conjunct2, THEN conjunct2, THEN conjunct1]
  note p6 = t [THEN conjunct2, THEN conjunct2, THEN conjunct2, THEN conjunct2, THEN conjunct2,
      THEN conjunct1]
  note p8 = t [THEN conjunct2, THEN conjunct2, THEN conjunct2, THEN conjunct2, THEN conjunct2,
      THEN conjunct2, THEN conjunct2, THEN conjunct1]
  note p10 = t [THEN conjunct2, THEN conjunct2, THEN conjunct2, THEN conjunct2, THEN conjunct2,
      THEN conjunct2, THEN conjunct2, THEN conjunct2, THEN conjunct2]
  note q9 = t2 [THEN conjunct2, THEN conjunct2, THEN conjunct2, THEN conjunct2, THEN conjunct2,
      THEN conjunct2, THEN conjunct2, THEN conjunct2, THEN conjunct1]
  have h1: "(1::nat) < length (data two_members)"
    and h2: "fst (data two_members ! 1) \<noteq> ''L2025001''"
    and h3: "''L2025002'' \<noteq> ''L2025001''"
    and h4: "map_of (data two_members) ''L2025001'' = Some asha"
    and d: "data two_members ! 1 = (''L2025002'', ravi)"
      "map_of (data two_members) ''L2025002'' = Some ravi"
      "map fst (data two_members) = [''L2025001'', ''L2025002'']"
    by (simp_all add: two_members_def)
  have h5: "''library_report.xlsx'' \<noteq> FILENAME" by (simp add: FILENAME_def)
  have h6: "load_data [FILENAME \<mapsto> Not_JSON] = Inl JSONDecodeError"
    by (simp add: load_data_def json_load_def)
  have a: "map fst (data (record_payment None \<lparr>year = 2024, month = 3, day = 15\<rparr> ''L2025001''
                      True 2 True two_members)) = [''L2025001'', ''L2025002'']"
    using p1 d(3) by simp
  have b: "data (record_payment None \<lparr>year = 2024, month = 3, day = 15\<rparr> ''L2025001''
              True 2 True two_members) ! 1 = (''L2025002'', ravi)"
    using p2 h1 h2 d(1) by metis
  have c: "map_of (data (record_payment None \<lparr>year = 2024, month = 3, day = 15\<rparr> ''L2025001''
                     True 2 True two_members)) ''L2025002'' = Some ravi"
    using p3 h3 d(2) by metis
  obtain u' where u': "map_of (data (record_payment None \<lparr>year = 2024, month = 3, day = 15\<rparr>
                         ''L2025001'' True 2 True two_members)) ''L2025001'' = Some u'"
    "name u' = name asha" "father_name u' = father_name asha" "seatno u' = seatno asha"
    "admission_date u' = admission_date asha"
    "u' = asha \<or> (\<exists>pay. payments u' = payments asha @ [pay])"
    using p5 h4 by blast
  have e: "\<exists>u'. map_of (data (record_payment None \<lparr>year = 2024, month = 3, day = 15\<rparr> ''L2025001''
                          True 2 True two_members)) ''L2025001'' = Some u'
          \<and> name u' = ''Asha'' \<and> father_name u' = ''Ram'' \<and> seatno u' = ''7''
          \<and> admission_date u' = ''2024-01-31''
          \<and> (u' = asha \<or> (\<exists>pay. payments u' = payments asha @ [pay]))"
    using u' by (intro exI [of _ u']) (simp add: asha_def)
  have f: "load_data (files (record_payment None \<lparr>year = 2024, month = 3, day = 15\<rparr> ''L2025001''
                     True 2 True two_members)) =
       Inr (data (record_payment None \<lparr>year = 2024, month = 3, day = 15\<rparr> ''L2025001''
                     True 2 True two_members))"
    using p6 two_members_loaded by blast
  from p10 [rule_format, OF two_members_loaded]
  obtain d' where dd: "load_data (fst (script None \<lparr>year = 2024, month = 3, day = 15\<rparr>
                               (Record_Payment ''L2025001'' True 2 True) (files two_members))) =
              Inr d'
             \<and> map fst d' = map fst (data two_members)
             \<and> (\<forall>i < length (data two_members). fst (data two_members ! i) \<noteq> ''L2025001'' \<longrightarrow>
                   d' ! i = data two_members ! i)
             \<and> (\<forall>c. c \<noteq> ''L2025001'' \<longrightarrow> map_of d' c = map_of (data two_members) c)
             \<and> (map_of (data two_members) ''L2025001'' = None \<longrightarrow> d' = data two_members)
             \<and> (\<forall>u. map_of (data two_members) ''L2025001'' = Some u \<longrightarrow>
                   (\<exists>u'. map_of d' ''L2025001'' = Some u'
                      \<and> name u' = name u \<and> father_name u' = father_name u
                      \<and> address u' = address u \<and> email u' = email u
                      \<and> contact u' = contact u \<and> seatno u' = seatno u
                      \<and> admission_date u' = admission_date u
                      \<and> (u' = u \<or> (\<exists>pay. payments u' = payments u @ [pay]))))" ..
  note d' = dd [THEN conjunct1] dd [THEN conjunct2, THEN conjunct1]
    dd [THEN conjunct2, THEN conjunct2, THEN conjunct1]
    dd [THEN conjunct2, THEN conjunct2, THEN conjunct2, THEN conjunct1]
    dd [THEN conjunct2, THEN conjunct2, THEN conjunct2, THEN conjunct2, THEN conjunct2,
      rule_format, OF h4]
  obtain v' where v': "map_of d' ''L2025001'' = Some v'" "name v' = name asha"
    "v' = asha \<or> (\<exists>pay. payments v' = payments asha @ [pay])"
    using d'(5) by blast
  have g: "\<exists>d'. load_data (fst (script None \<lparr>year = 2024, month = 3, day = 15\<rparr>
                               (Record_Payment ''L2025001'' True 2 True) (files two_members))) =
              Inr d'
          \<and> map fst d' = [''L2025001'', ''L2025002'']
          \<and> d' ! 1 = (''L2025002'', ravi)
          \<and> map_of d' ''L2025002'' = Some ravi
          \<and> (\<exists>u'. map_of d' ''L2025001'' = Some u' \<and> name u' = ''Asha''
                \<and> (u' = asha \<or> (\<exists>pay. payments u' = payments asha @ [pay])))"
  proof (intro exI [of _ d'] conjI)
    show "load_data (fst (script None \<lparr>year = 2024, month = 3, day = 15\<rparr>
            (Record_Payment ''L2025001'' True 2 True) (files two_members))) = Inr d'"
      by (rule d'(1))
    show "map fst d' = [''L2025001'', ''L2025002'']" using d'(2) d(3) by simp
    show "d' ! 1 = (''L2025002'', ravi)" using d'(3) h1 h2 d(1) by metis
    show "map_of d' ''L2025002'' = Some ravi" using d'(4) h3 d(2) by metis
    show "\<exists>u'. map_of d' ''L2025001'' = Some u' \<and> name u' = ''Asha''
                \<and> (u' = asha \<or> (\<exists>pay. payments u' = payments asha @ [pay]))"
      using v' by (intro exI [of _ v']) (simp add: asha_def)
  qed
  have i: "fst (script None \<lparr>year = 2024, month = 3, day = 15\<rparr>
             (Record_Payment ''L2025001'' True 2 True) (files two_members))
         ''library_report.xlsx'' = files two_members ''library_report.xlsx''"
    using p8 h5 by blast
  have j: "fst (script None \<lparr>year = 2024, month = 3, day = 15\<rparr>
             (Record_Payment ''L2025001'' True 2 True) [FILENAME \<mapsto> Not_JSON]) =
       [FILENAME \<mapsto> Not_JSON]"
    using q9 h6 by blast
  show ?thesis
    using h1 h2 h3 h4 two_members_loaded h5 h6 a b c e f g i j by (intro conjI)
qed

subsection \<open>The report\<close>

lemma payment_rows_append:
  "payment_rows code u pays rows = rows @ map (row_of code u) pays"
  by (induction pays arbitrary: rows) (simp_all add: row_of_def)

lemma user_rows_append: "user_rows d rows = rows @ rows_of d"
  by (induction d arbitrary: rows) (auto simp: rows_of_def payment_rows_append)

lemma generate_report_rows_of: "generate_report d = rows_of d"
  by (simp add: generate_report_def user_rows_append)

lemma rows_of_append: "rows_of (d1 @ d2) = rows_of d1 @ rows_of d2"
  by (simp add: rows_of_def)

lemma length_rows_of: "length (rows_of d) = sum_list (map (\<lambda>(code, u). length (payments u)) d)"
  by (induction d) (auto simp: rows_of_def)

text \<open>
  C8. \<^verbatim>\<open>generate_report\<close> gives exactly one row for each member and each of the
  member's payments, in the order of the dataset, with the eight columns code, name,
  father's name, address, contact, admission date, payment date and amount. A member
  without payments adds no row, and a single member with two payments gives two rows
  that share the member's fields.
\<close>

theorem report_one_row_per_payment:
  "generate_report d = concat (map (\<lambda>(code, u). map (row_of code u) (payments u)) d)
   \<and> length (generate_report d) = sum_list (map (\<lambda>(code, u). length (payments u)) d)
   \<and> (payments u = [] \<longrightarrow>
        generate_report (d1 @ (code, u) # d2) = generate_report (d1 @ d2) \<and>
        generate_report [(code, u)] = [])
   \<and> (payments u = [pay1, pay2] \<longrightarrow>
        generate_report [(code, u)] = [row_of code u pay1, row_of code u pay2] \<and>
        length (generate_report [(code, u)]) = 2)
   \<and> (\<forall>r \<in> set (generate_report [(code, u)]).
        Library_Code r = code \<and> Name r = name u \<and> Fathers_Name r = father_name u \<and>
        Address r = address u \<and> Contact r = contact u \<and>
        Admission_Date r = admission_date u \<and>
        (\<exists>pay \<in> set (payments u). Payment_Date r = date pay \<and> Amount_Paid r = amount pay))"
proof (intro conjI impI)
  show "generate_report d = concat (map (\<lambda>(code, u). map (row_of code u) (payments u)) d)"
    by (simp add: generate_report_rows_of rows_of_def)
  show "length (generate_report d) = sum_list (map (\<lambda>(code, u). length (payments u)) d)"
    by (simp add: generate_report_rows_of length_rows_of)
  show "generate_report (d1 @ (code, u) # d2) = generate_report (d1 @ d2)" if "payments u = []"
    using that by (simp add: generate_report_rows_of rows_of_def)
  show "generate_report [(code, u)] = []" if "payments u = []"
    using that by (simp add: generate_report_rows_of rows_of_def)
  show "generate_report [(code, u)] = [row_of code u pay1, row_of code u pay2]"
    if "payments u = [pay1, pay2]"
    using that by (simp add: generate_report_rows_of rows_of_def)
  show "length (generate_report [(code, u)]) = 2" if "payments u = [pay1, pay2]"
    using that by (simp add: generate_report_rows_of rows_of_def)
  show "\<forall>r \<in> set (generate_report [(code, u)]).
        Library_Code r = code \<and> Name r = name u \<and> Fathers_Name r = father_name u \<and>
        Address r = address u \<and> Contact r = contact u \<and>
        Admission_Date r = admission_date u \<and>
        (\<exists>pay \<in> set (payments u). Payment_Date r = date pay \<and> Amount_Paid r = amount pay)"
    by (auto simp: generate_report_rows_of rows_of_def row_of_def)
qed


theorem report_one_row_per_payment_witness:
  "payments (ravi\<lparr>payments := []\<rparr>) = []
   \<and> generate_report ([(''L2025001'', asha)] @ (''L2025002'', ravi\<lparr>payments := []\<rparr>) # []) =
       generate_report ([(''L2025001'', asha)] @ [])
   \<and> payments (asha\<lparr>payments := [\<lparr>date = ''2024-01-31'', amount = 500\<rparr>,
                                     \<lparr>date = ''2024-03-15'', amount = 1000\<rparr>]\<rparr>) =
       [\<lparr>date = ''2024-01-31'', amount = 500\<rparr>, \<lparr>date = ''2024-03-15'', amount = 1000\<rparr>]
   \<and> generate_report
        [(''L2025001'', asha\<lparr>payments := [\<lparr>date = ''2024-01-31'', amount = 500\<rparr>,
                                           \<lparr>date = ''2024-03-15'', amount = 1000\<rparr>]\<rparr>)] =
       [\<lparr>Library_Code = ''L2025001'', Name = ''Asha'', Fathers_Name = ''Ram'',
         Address = ''12 Indrapuri'', Contact = ''+911234567890'',
         Admission_Date = ''2024-01-31'', Payment_Date = ''2024-01-31'', Amount_Paid = 500\<rparr>,
        \<lparr>Library_Code = ''L2025001'', Name = ''Asha'', Fathers_Name = ''Ram'',
         Address = ''12 Indrapuri'', Contact = ''+911234567890'',
         Admission_Date = ''2024-01-31'', Payment_Date = ''2024-03-15'', Amount_Paid = 1000\<rparr>]
   \<and> row_of ''L2025001'' asha \<lparr>date = ''2024-01-31'', amount = 500\<rparr>
         \<in> set (generate_report [(''L2025001'', asha)])
   \<and> Name (row_of ''L2025001'' asha \<lparr>date = ''2024-01-31'', amount = 500\<rparr>) = name asha"
proof -
  have h1: "payments (ravi\<lparr>payments := []\<rparr>) = []" by simp
  have h2: "payments (asha\<lparr>payments := [\<lparr>date = ''2024-01-31'', amount = 500\<rparr>,
                                     \<lparr>date = ''2024-03-15'', amount = 1000\<rparr>]\<rparr>) =
       [\<lparr>date = ''2024-01-31'', amount = 500\<rparr>, \<lparr>date = ''2024-03-15'', amount = 1000\<rparr>]"
    by simp
  note a = report_one_row_per_payment [where u = "ravi\<lparr>payments := []\<rparr>"
      and ?d1.0 = "[(''L2025001'', asha)]" and code = "''L2025002''" and ?d2.0 = "[]"]
  note b = report_one_row_per_payment [where
      u = "asha\<lparr>payments := [\<lparr>date = ''2024-01-31'', amount = 500\<rparr>,
                               \<lparr>date = ''2024-03-15'', amount = 1000\<rparr>]\<rparr>"
      and code = "''L2025001''" and ?pay1.0 = "\<lparr>date = ''2024-01-31'', amount = 500\<rparr>"
      and ?pay2.0 = "\<lparr>date = ''2024-03-15'', amount = 1000\<rparr>"]
  note c = report_one_row_per_payment [where u = asha and code = "''L2025001''"
      and d = "[(''L2025001'', asha)]"]
  have 1: "generate_report ([(''L2025001'', asha)] @ (''L2025002'', ravi\<lparr>payments := []\<rparr>) # []) =
       generate_report ([(''L2025001'', asha)] @ [])"
    using a h1 by blast
  have 2: "generate_report
        [(''L2025001'', asha\<lparr>payments := [\<lparr>date = ''2024-01-31'', amount = 500\<rparr>,
                                           \<lparr>date = ''2024-03-15'', amount = 1000\<rparr>]\<rparr>)] =
       [row_of ''L2025001'' (asha\<lparr>payments := [\<lparr>date = ''2024-01-31'', amount = 500\<rparr>,
                                           \<lparr>date = ''2024-03-15'', amount = 1000\<rparr>]\<rparr>)
          \<lparr>date = ''2024-01-31'', amount = 500\<rparr>,
        row_of ''L2025001'' (asha\<lparr>payments := [\<lparr>date = ''2024-01-31'', amount = 500\<rparr>,
                                           \<lparr>date = ''2024-03-15'', amount = 1000\<rparr>]\<rparr>)
          \<lparr>date = ''2024-03-15'', amount = 1000\<rparr>]"
    using b h2 by blast
  have 3: "row_of ''L2025001'' asha \<lparr>date = ''2024-01-31'', amount = 500\<rparr>
         \<in> set (generate_report [(''L2025001'', asha)])"
    using c by (simp add: asha_def)
  have 4: "Name (row_of ''L2025001'' asha \<lparr>date = ''2024-01-31'', amount = 500\<rparr>) = name asha"
    using c 3 by blast
  show ?thesis
    using h1 h2 1 3 4 unfolding 2 by (simp add: row_of_def asha_def)
qed

subsection \<open>Members who paid ahead\<close>








end
